theory Spec2Isabelle
  imports Complex_Main "HOL-Library.AList"
begin

section \<open>Iceberg detection engine: the order model\<close>

text \<open>
  The embedding follows \<^verbatim>\<open>icetomultipletopicsv2slowed.py\<close> (called V2 below) and
  \<^verbatim>\<open>icev3.py\<close> (V3). Python numbers (sizes, prices, time stamps, ratios) are
  modelled as exact rationals: the rounding of binary floating point is not modelled.
  Counters that start at 0 and are only incremented are naturals. \<^verbatim>\<open>time.time()\<close>
  is an explicit argument of every operation that reads the clock.
\<close>

subsection \<open>Event logs kept inside an order\<close>

text \<open>The dictionaries appended to \<^verbatim>\<open>replace_events\<close> and \<^verbatim>\<open>execution_events\<close> (V2).\<close>

record replace_event =
  re_timestamp :: rat
  re_old_size :: rat
  re_new_size :: rat
  re_size_change :: rat
  re_old_price :: rat
  re_new_price :: rat
  re_price_changed :: bool

record execution_event =
  ee_timestamp :: rat
  ee_filled_size :: rat
  ee_remaining_size :: rat

text \<open>The dictionary appended to \<^verbatim>\<open>replace_events\<close> in V3.\<close>

record replace_event_v3 =
  ts :: rat
  old_s :: rat
  new_s :: rat
  old_p :: rat
  new_p :: "rat option"

subsection \<open>The class IcebergOrder\<close>

text \<open>
  The attributes that V2 and V3 share form the base record; each version extends it
  with its own attributes.
\<close>

record iceberg_order =
  order_id :: string
  trader_id :: "string option"
  initial_size :: rat
  current_size :: rat
  max_visible_size :: rat
  is_bid :: bool
  timestamp :: rat
  last_update :: rat
  last_reported_filled :: rat
  price_history :: "rat list"
  current_price :: rat
  price_changes :: nat
  total_filled :: rat
  refill_count :: nat
  size_decrease_count :: nat
  is_confirmed_iceberg :: bool
  iceberg_start_time :: "rat option"
  completion_time :: "rat option"
  min_size_seen :: rat
  execution_percentage :: rat

record iceberg_order_v2 = iceberg_order +
  price :: rat
  replace_events :: "replace_event list"
  execution_events :: "execution_event list"
  consecutive_refills :: nat

record iceberg_order_v3 = iceberg_order +
  active_filled :: rat
  passive_filled :: rat
  replace_events_v3 :: "replace_event_v3 list"

text \<open>\<^verbatim>\<open>IcebergOrder.__init__\<close> of V2.\<close>

definition IcebergOrder ::
  "string \<Rightarrow> rat \<Rightarrow> rat \<Rightarrow> bool \<Rightarrow> rat \<Rightarrow> string option \<Rightarrow> iceberg_order_v2" where
  "IcebergOrder oid p isize bid tstamp tid =
     \<lparr> order_id = oid, trader_id = tid, initial_size = isize, current_size = isize,
       max_visible_size = isize, is_bid = bid, timestamp = tstamp, last_update = tstamp,
       last_reported_filled = 0, price_history = [p], current_price = p,
       price_changes = 0, total_filled = 0, refill_count = 0, size_decrease_count = 0,
       is_confirmed_iceberg = False, iceberg_start_time = None, completion_time = None,
       min_size_seen = isize, execution_percentage = 0,
       price = p, replace_events = [], execution_events = [], consecutive_refills = 0 \<rparr>"


text \<open>
  \<^verbatim>\<open>add_execution\<close> of V2: log the fill, add it to \<^verbatim>\<open>total_filled\<close>, and recompute
  \<^verbatim>\<open>execution_percentage\<close> when the estimated total size is positive.
\<close>

definition add_execution :: "iceberg_order_v2 \<Rightarrow> rat \<Rightarrow> rat \<Rightarrow> iceberg_order_v2" where
  "add_execution ord filled_size tstamp =
     (let ord1 = ord\<lparr> execution_events := execution_events ord @
                   [\<lparr> ee_timestamp = tstamp, ee_filled_size = filled_size,
                      ee_remaining_size = current_size ord \<rparr>] \<rparr>;
          ord2 = ord1\<lparr> total_filled := total_filled ord1 + filled_size \<rparr>;
          ord3 = ord2\<lparr> last_update := tstamp \<rparr>;
          estimated_total_size = max (total_filled ord3 + current_size ord3) (max_visible_size ord3)
      in if estimated_total_size > 0
         then ord3\<lparr> execution_percentage := total_filled ord3 / estimated_total_size \<rparr>
         else ord3)"

text \<open>\<^verbatim>\<open>add_execution\<close> of V3, with the role of the order in the trade.\<close>

definition add_execution_v3 ::
  "iceberg_order_v3 \<Rightarrow> rat \<Rightarrow> rat \<Rightarrow> bool \<Rightarrow> iceberg_order_v3" where
  "add_execution_v3 ord filled_size tstamp is_active =
     (let ord1 = (if is_active
                  then ord\<lparr> active_filled := active_filled ord + filled_size \<rparr>
                  else ord\<lparr> passive_filled := passive_filled ord + filled_size \<rparr>);
          ord2 = ord1\<lparr> total_filled := total_filled ord1 + filled_size \<rparr>;
          ord3 = ord2\<lparr> last_update := tstamp \<rparr>;
          est_total = max (total_filled ord3 + current_size ord3) (max_visible_size ord3)
      in if est_total > 0
         then ord3\<lparr> execution_percentage := total_filled ord3 / est_total \<rparr>
         else ord3)"

text \<open>
  \<^verbatim>\<open>add_replace_event\<close> of V2. \<^verbatim>\<open>new_price\<close> is optional (\<^verbatim>\<open>None\<close> by default); the
  logged \<^verbatim>\<open>'new_price'\<close> is \<^verbatim>\<open>new_price if new_price else old_price\<close>, so a price that
  is \<^verbatim>\<open>None\<close> or zero logs the old price.
\<close>

definition add_replace_event ::
  "iceberg_order_v2 \<Rightarrow> rat \<Rightarrow> rat \<Rightarrow> rat option \<Rightarrow> iceberg_order_v2" where
  "add_replace_event ord new_size tstamp new_price =
     (let old_size = current_size ord;
          old_price = current_price ord;
          size_change = new_size - old_size;
          price_changed = (case new_price of None \<Rightarrow> False | Some np \<Rightarrow> np \<noteq> old_price);
          ord1 = (case new_price of
                    None \<Rightarrow> ord
                  | Some np \<Rightarrow>
                      if np \<noteq> old_price
                      then (let o1 = ord\<lparr> current_price := np \<rparr>;
                                o2 = (if np \<notin> set (price_history o1)
                                      then o1\<lparr> price_history := price_history o1 @ [np] \<rparr>
                                      else o1)
                            in o2\<lparr> price_changes := price_changes o2 + 1 \<rparr>)
                      else ord);
          ord2 = ord1\<lparr> replace_events := replace_events ord1 @
                   [\<lparr> re_timestamp = tstamp, re_old_size = old_size, re_new_size = new_size,
                      re_size_change = size_change, re_old_price = old_price,
                      re_new_price = (case new_price of
                                        None \<Rightarrow> old_price
                                      | Some np \<Rightarrow> if np \<noteq> 0 then np else old_price),
                      re_price_changed = price_changed \<rparr>] \<rparr>;
          ord3 = (if size_change < 0
                  then (let o1 = add_execution ord2 \<bar>size_change\<bar> tstamp
                        in o1\<lparr> size_decrease_count := size_decrease_count o1 + 1 \<rparr>)
                  else ord2);
          ord4 = (if new_size < min_size_seen ord3
                  then ord3\<lparr> min_size_seen := new_size \<rparr> else ord3);
          ord5 = (if new_size > max_visible_size ord4
                  then ord4\<lparr> max_visible_size := new_size \<rparr> else ord4);
          ord6 = (if size_change > 0 \<and> old_size < initial_size ord5
                  then ord5\<lparr> refill_count := refill_count ord5 + 1,
                             consecutive_refills := consecutive_refills ord5 + 1 \<rparr>
                  else ord5\<lparr> consecutive_refills := 0 \<rparr>)
      in ord6\<lparr> current_size := new_size, last_update := tstamp \<rparr>)"


text \<open>\<^verbatim>\<open>get_execution_ratio\<close>: the same in V2 and V3.\<close>

definition get_execution_ratio :: "'a iceberg_order_scheme \<Rightarrow> rat" where
  "get_execution_ratio ord =
     (if max_visible_size ord > 0 then total_filled ord / max_visible_size ord else 0)"

text \<open>\<^verbatim>\<open>get_iceberg_score\<close> of V2, statement by statement.\<close>

definition get_iceberg_score :: "'a iceberg_order_scheme \<Rightarrow> rat" where
  "get_iceberg_score ord =
     (let score0 = (0::rat);
          score1 = (if max_visible_size ord > 0
                    then (let size_ratio = min_size_seen ord / max_visible_size ord
                          in if size_ratio > 3/10 then score0 + 3/10 else score0)
                    else score0);
          score2 = (if refill_count ord \<ge> 2
                    then score1 + min (4/10) (of_nat (refill_count ord) * (1/10))
                    else score1);
          execution_ratio = get_execution_ratio ord;
          score3 = (if execution_ratio > 15/10
                    then score2 + min (3/10) (execution_ratio * (1/10))
                    else score2)
      in min score3 1)"

text \<open>\<^verbatim>\<open>get_iceberg_score\<close> of V3 (the two tests of the first rule are one conjunction).\<close>

definition get_iceberg_score_v3 :: "'a iceberg_order_scheme \<Rightarrow> rat" where
  "get_iceberg_score_v3 ord =
     (let score0 = (0::rat);
          score1 = (if max_visible_size ord > 0 \<and>
                       min_size_seen ord / max_visible_size ord > 3/10
                    then score0 + 3/10 else score0);
          score2 = (if refill_count ord \<ge> 2
                    then score1 + min (4/10) (of_nat (refill_count ord) * (1/10))
                    else score1);
          exec_ratio = get_execution_ratio ord;
          score3 = (if exec_ratio > 15/10
                    then score2 + min (3/10) (exec_ratio * (1/10))
                    else score2)
      in min score3 1)"

subsection \<open>Sequences of events applied to one order\<close>

text \<open>
  The two ways in which the engine mutates a tracked order: a replace event
  (\<^verbatim>\<open>add_replace_event\<close>) and an execution (\<^verbatim>\<open>add_execution\<close>). A sequence of them is
  applied from left to right.
\<close>

datatype order_event =
  Replace rat rat "rat option"
| Execution rat rat

fun apply_order_event :: "iceberg_order_v2 \<Rightarrow> order_event \<Rightarrow> iceberg_order_v2" where
  "apply_order_event ord (Replace new_size tstamp new_price) =
     add_replace_event ord new_size tstamp new_price"
| "apply_order_event ord (Execution filled_size tstamp) =
     add_execution ord filled_size tstamp"

definition apply_order_events :: "iceberg_order_v2 \<Rightarrow> order_event list \<Rightarrow> iceberg_order_v2" where
  "apply_order_events ord es = foldl apply_order_event ord es"

text \<open>The net of all replace-driven size deltas, read from the order's own log.\<close>

definition net_replace_delta :: "iceberg_order_v2 \<Rightarrow> rat" where
  "net_replace_delta ord = sum_list (map re_size_change (replace_events ord))"

text \<open>
  The fills that a sequence of events records after its last replace event: the
  explicit executions that follow it.
\<close>

fun is_execution :: "order_event \<Rightarrow> bool" where
  "is_execution (Execution filled_size tstamp) = True"
| "is_execution (Replace new_size tstamp new_price) = False"

fun fill_of :: "order_event \<Rightarrow> rat" where
  "fill_of (Execution filled_size tstamp) = filled_size"
| "fill_of (Replace new_size tstamp new_price) = 0"

definition fills_since_last_replace :: "order_event list \<Rightarrow> rat" where
  "fills_since_last_replace es = sum_list (map fill_of (takeWhile is_execution (rev es)))"

fun replace_size_nonneg :: "order_event \<Rightarrow> bool" where
  "replace_size_nonneg (Replace new_size tstamp new_price) = (0 \<le> new_size)"
| "replace_size_nonneg (Execution filled_size tstamp) = True"


subsection \<open>The score as the specification words it\<close>

text \<open>
  The specification's formula for the score: 0.3 for the size ratio, 0.1 per refill
  capped at 0.4, and 0.1 per unit of an execution ratio above 1.5 capped at 0.3, the
  sum capped at 1.
\<close>

definition spec_iceberg_score :: "'a iceberg_order_scheme \<Rightarrow> rat" where
  "spec_iceberg_score ord =
     min 1 ((if max_visible_size ord > 0 \<and> min_size_seen ord / max_visible_size ord > 3/10
             then 3/10 else 0)
            + min (4/10) (of_nat (refill_count ord) * (1/10))
            + (if get_execution_ratio ord > 15/10
               then min (3/10) (get_execution_ratio ord * (1/10)) else 0))"

text \<open>The three summands as the code computes them.\<close>

definition size_consistency_score :: "'a iceberg_order_scheme \<Rightarrow> rat" where
  "size_consistency_score ord =
     (if max_visible_size ord > 0 \<and> min_size_seen ord / max_visible_size ord > 3/10
      then 3/10 else 0)"

definition refill_pattern_score :: "'a iceberg_order_scheme \<Rightarrow> rat" where
  "refill_pattern_score ord =
     (if refill_count ord \<ge> 2 then min (4/10) (of_nat (refill_count ord) * (1/10)) else 0)"

definition execution_volume_score :: "'a iceberg_order_scheme \<Rightarrow> rat" where
  "execution_volume_score ord =
     (if get_execution_ratio ord > 15/10
      then min (3/10) (get_execution_ratio ord * (1/10)) else 0)"

section \<open>Rolling market metrics and thresholds\<close>

text \<open>An exception raised by the Python code, as a value.\<close>

datatype py_error = IndexError

text \<open>
  \<^verbatim>\<open>deque(maxlen=n).append(x)\<close>: the new element goes to the right end, and the
  oldest elements leave at the left end once the capacity is exceeded.
\<close>

definition deque_append :: "nat \<Rightarrow> 'a list \<Rightarrow> 'a \<Rightarrow> 'a list" where
  "deque_append maxlen xs x = (let ys = xs @ [x] in drop (length ys - maxlen) ys)"

text \<open>
  The class \<^verbatim>\<open>MarketMetrics\<close>. The attributes \<^verbatim>\<open>_avg_order_size\<close>, \<^verbatim>\<open>_avg_trade_size\<close>,
  \<^verbatim>\<open>_volume_rate\<close>, \<^verbatim>\<open>_last_update\<close> and \<^verbatim>\<open>_update_interval\<close> carry the prefix
  \<^verbatim>\<open>mm\<close> in place of the leading underscore.
\<close>

record market_metrics =
  window_size :: nat
  order_sizes :: "rat list"
  trade_sizes :: "rat list"
  volume_history :: "rat list"
  timestamp_history :: "rat list"
  mm_avg_order_size :: rat
  mm_avg_trade_size :: rat
  mm_volume_rate :: rat
  mm_last_update :: rat
  mm_update_interval :: rat

definition MarketMetrics :: "nat \<Rightarrow> market_metrics" where
  "MarketMetrics wsize =
     \<lparr> window_size = wsize, order_sizes = [], trade_sizes = [], volume_history = [],
       timestamp_history = [], mm_avg_order_size = 0, mm_avg_trade_size = 0,
       mm_volume_rate = 0, mm_last_update = 0, mm_update_interval = 5 \<rparr>"

definition update_metrics :: "market_metrics \<Rightarrow> market_metrics" where
  "update_metrics mm =
     (let mm1 = (if order_sizes mm \<noteq> []
                 then mm\<lparr> mm_avg_order_size :=
                        sum_list (order_sizes mm) / of_nat (length (order_sizes mm)) \<rparr>
                 else mm\<lparr> mm_avg_order_size := 50 \<rparr>);
          mm2 = (if trade_sizes mm1 \<noteq> []
                 then mm1\<lparr> mm_avg_trade_size :=
                        sum_list (trade_sizes mm1) / of_nat (length (trade_sizes mm1)) \<rparr>
                 else mm1\<lparr> mm_avg_trade_size := 30 \<rparr>)
      in if length (volume_history mm2) \<ge> 2
         then (let recent = sum_list (drop (length (volume_history mm2) - 10) (volume_history mm2))
               in mm2\<lparr> mm_volume_rate := recent / of_nat (min 10 (length (volume_history mm2))) \<rparr>)
         else mm2\<lparr> mm_volume_rate := 100 \<rparr>)"

definition maybe_update_metrics :: "market_metrics \<Rightarrow> rat \<Rightarrow> market_metrics" where
  "maybe_update_metrics mm current_time =
     (if current_time - mm_last_update mm \<ge> mm_update_interval mm
      then (update_metrics mm)\<lparr> mm_last_update := current_time \<rparr>
      else mm)"

text \<open>\<^verbatim>\<open>MarketMetrics.add_order\<close>, \<^verbatim>\<open>add_trade\<close> and \<^verbatim>\<open>add_volume_sample\<close>.\<close>

definition mm_add_order :: "market_metrics \<Rightarrow> rat \<Rightarrow> rat \<Rightarrow> market_metrics" where
  "mm_add_order mm sz now =
     (let mm1 = mm\<lparr> order_sizes := deque_append (window_size mm) (order_sizes mm) sz \<rparr>;
          mm2 = mm1\<lparr> timestamp_history :=
                   deque_append (window_size mm1) (timestamp_history mm1) now \<rparr>
      in maybe_update_metrics mm2 now)"

definition mm_add_trade :: "market_metrics \<Rightarrow> rat \<Rightarrow> rat \<Rightarrow> market_metrics" where
  "mm_add_trade mm sz now =
     maybe_update_metrics
       (mm\<lparr> trade_sizes := deque_append (window_size mm) (trade_sizes mm) sz \<rparr>) now"

definition mm_add_volume_sample :: "market_metrics \<Rightarrow> rat \<Rightarrow> market_metrics" where
  "mm_add_volume_sample mm volume =
     mm\<lparr> volume_history := deque_append 50 (volume_history mm) volume \<rparr>"

definition get_avg_order_size :: "market_metrics \<Rightarrow> rat" where
  "get_avg_order_size mm = max (mm_avg_order_size mm) 10"

definition get_avg_trade_size :: "market_metrics \<Rightarrow> rat" where
  "get_avg_trade_size mm = max (mm_avg_trade_size mm) 5"

definition get_volume_rate :: "market_metrics \<Rightarrow> rat" where
  "get_volume_rate mm = max (mm_volume_rate mm) 50"

text \<open>
  Python's \<^verbatim>\<open>int(x)\<close> on a number truncates towards zero, and \<^verbatim>\<open>xs[i]\<close> counts a
  negative index from the end and raises \<^verbatim>\<open>IndexError\<close> out of range.
\<close>

definition py_int :: "rat \<Rightarrow> int" where
  "py_int x = (if 0 \<le> x then \<lfloor>x\<rfloor> else \<lceil>x\<rceil>)"

definition py_index :: "'a list \<Rightarrow> int \<Rightarrow> py_error + 'a" where
  "py_index xs i =
     (if 0 \<le> i \<and> i < int (length xs) then Inr (xs ! nat i)
      else if i < 0 \<and> - int (length xs) \<le> i then Inr (xs ! nat (int (length xs) + i))
      else Inl IndexError)"

text \<open>\<^verbatim>\<open>get_percentile_order_size\<close>; the percentile is 75 by default.\<close>

definition get_percentile_order_size :: "market_metrics \<Rightarrow> rat \<Rightarrow> py_error + rat" where
  "get_percentile_order_size mm percentile =
     (if order_sizes mm = [] then Inr 100
      else (let sorted_sizes = sort (order_sizes mm);
                index0 = py_int ((percentile / 100) * of_nat (length sorted_sizes));
                index1 = min index0 (int (length sorted_sizes) - 1)
            in case py_index sorted_sizes index1 of
                 Inl e \<Rightarrow> Inl e
               | Inr v \<Rightarrow> Inr (max v 20)))"


text \<open>The dictionary that \<^verbatim>\<open>get_dynamic_thresholds\<close> returns.\<close>

record thresholds =
  t_trigger_size :: rat
  t_max_visible_size :: rat
  t_min_visible_size :: rat
  t_volume_threshold :: rat
  t_avg_order_size :: rat

text \<open>
  The parameters that \<^verbatim>\<open>RealMBOIcebergDetector.__init__\<close> sets and nothing changes
  afterwards.
\<close>

definition trigger_size_percentage :: rat where "trigger_size_percentage = 10"
definition max_visible_percentage :: rat where "max_visible_percentage = 150"
definition min_visible_percentage :: rat where "min_visible_percentage = 10"
definition volume_threshold_percentage :: rat where "volume_threshold_percentage = 30"
definition alert_execution_ratio_threshold :: rat where "alert_execution_ratio_threshold = 5"
definition alert_total_filled_threshold :: rat where "alert_total_filled_threshold = 80"
definition time_window :: rat where "time_window = 6000"
definition execution_threshold :: rat where "execution_threshold = 7/10"
definition volume_sample_interval :: rat where "volume_sample_interval = 60"

definition get_dynamic_thresholds :: "market_metrics \<Rightarrow> py_error + thresholds" where
  "get_dynamic_thresholds mm =
     (let avg_order_size = get_avg_order_size mm;
          volume_rate = get_volume_rate mm
      in case get_percentile_order_size mm 75 of
           Inl e \<Rightarrow> Inl e
         | Inr percentile_size \<Rightarrow>
             (let trigger_size = max (avg_order_size * (trigger_size_percentage / 100))
                                     (percentile_size * (5/10));
                  max_visible = avg_order_size * (max_visible_percentage / 100);
                  min_visible = avg_order_size * (min_visible_percentage / 100);
                  volume_threshold = volume_rate * (volume_threshold_percentage / 100)
              in Inr \<lparr> t_trigger_size = max (min trigger_size 500) 20,
                       t_max_visible_size = max (min max_visible 1000) 50,
                       t_min_visible_size = max (min min_visible 100) 10,
                       t_volume_threshold = volume_threshold,
                       t_avg_order_size = avg_order_size \<rparr>))"

section \<open>The detector\<close>

text \<open>
  What the detector sends to Telegram is recorded as a log of notifications, one entry
  for each call of \<^verbatim>\<open>_send_iceberg_detection_notification\<close>,
  \<^verbatim>\<open>_send_iceberg_execution_update\<close> and \<^verbatim>\<open>_send_iceberg_completion_notification\<close>,
  with the order's \<^verbatim>\<open>order_id\<close>. The text of a message is not modelled; of the reason of
  a detection only the rule that fired is kept.
\<close>

datatype confirm_reason =
  RefillPattern | HighExecutionRatio | LargeVolume | WithPartials | HiddenLiquidity

datatype notification =
  DetectionNotification string confirm_reason
| ExecutionUpdate string
| CompletionNotification string

record trade_info =
  tr_timestamp :: rat
  tr_price :: rat
  tr_size :: rat
  tr_is_bid :: bool

text \<open>
  The class \<^verbatim>\<open>RealMBOIcebergDetector\<close> of V2. \<^verbatim>\<open>active_orders\<close> is a dictionary in
  insertion order (an association list with one entry per key). The dictionaries
  \<^verbatim>\<open>potential_icebergs\<close> and \<^verbatim>\<open>confirmed_icebergs\<close> hold references to the objects of
  \<^verbatim>\<open>active_orders\<close> and are only tested for membership, so their key sets are kept.
  \<^verbatim>\<open>orders_by_price\<close> is a \<^verbatim>\<open>defaultdict(list)\<close>; \<^verbatim>\<open>order_book_snapshot\<close> is the pair of
  dictionaries \<^verbatim>\<open>bids\<close> and \<^verbatim>\<open>asks\<close>.
\<close>

record detector =
  instrument_alias :: string
  size_multiplier :: rat
  pips :: rat
  market_metrics :: market_metrics
  active_orders :: "(string \<times> iceberg_order_v2) list"
  potential_icebergs :: "string set"
  confirmed_icebergs :: "string set"
  completed_icebergs :: "string \<rightharpoonup> iceberg_order_v2"
  orders_by_price :: "rat \<rightharpoonup> string list"
  recent_trades :: "trade_info list"
  bids :: "(rat \<times> rat) list"
  asks :: "(rat \<times> rat) list"
  best_bid :: "rat option"
  best_ask :: "rat option"
  total_icebergs_detected :: nat
  total_icebergs_completed :: nat
  recent_volume :: rat
  last_volume_sample :: rat
  notifications :: "notification list"

text \<open>\<^verbatim>\<open>RealMBOIcebergDetector.__init__\<close>, at clock reading \<open>now\<close>.\<close>

definition RealMBOIcebergDetector :: "string \<Rightarrow> rat \<Rightarrow> rat \<Rightarrow> rat \<Rightarrow> detector" where
  "RealMBOIcebergDetector a multiplier pip now =
     \<lparr> instrument_alias = a, size_multiplier = multiplier, pips = pip,
       market_metrics = MarketMetrics 100, active_orders = [],
       potential_icebergs = {}, confirmed_icebergs = {}, completed_icebergs = Map.empty,
       orders_by_price = Map.empty, recent_trades = [], bids = [], asks = [],
       best_bid = None, best_ask = None, total_icebergs_detected = 0,
       total_icebergs_completed = 0, recent_volume = 0, last_volume_sample = now,
       notifications = [] \<rparr>"

text \<open>\<^verbatim>\<open>size / self.size_multiplier if self.size_multiplier > 0 else size\<close>.\<close>

definition normalize_size :: "detector \<Rightarrow> rat \<Rightarrow> rat" where
  "normalize_size d sz = (if size_multiplier d > 0 then sz / size_multiplier d else sz)"

text \<open>\<^verbatim>\<open>update_depth\<close>.\<close>

definition update_depth :: "detector \<Rightarrow> bool \<Rightarrow> rat \<Rightarrow> rat \<Rightarrow> detector" where
  "update_depth d bid p sz =
     (let side = (if bid then bids d else asks d);
          side1 = (if sz > 0 then AList.update p sz side
                   else if p \<in> set (map fst side) then AList.delete p side
                   else side);
          d1 = (if bid then d\<lparr> bids := side1 \<rparr> else d\<lparr> asks := side1 \<rparr>);
          d2 = (if bids d1 \<noteq> []
                then d1\<lparr> best_bid := Some (Max (set (map fst (bids d1)))) \<rparr> else d1)
      in if asks d2 \<noteq> []
         then d2\<lparr> best_ask := Some (Min (set (map fst (asks d2)))) \<rparr> else d2)"

text \<open>
  \<^verbatim>\<open>_get_distance_from_best\<close>. \<^verbatim>\<open>self.best_bid\<close> is tested for truth: \<^verbatim>\<open>None\<close> and
  zero both fail the test.
\<close>

definition truthy_price :: "rat option \<Rightarrow> bool" where
  "truthy_price x = (case x of None \<Rightarrow> False | Some v \<Rightarrow> v \<noteq> 0)"

definition get_distance_from_best :: "detector \<Rightarrow> rat \<Rightarrow> bool \<Rightarrow> rat" where
  "get_distance_from_best d p bid =
     (if pips d > 0
      then (if bid \<and> truthy_price (best_bid d) then \<bar>p - the (best_bid d)\<bar> / pips d
            else if \<not> bid \<and> truthy_price (best_ask d) then \<bar>p - the (best_ask d)\<bar> / pips d
            else 0)
      else 0)"

text \<open>\<^verbatim>\<open>self.orders_by_price[price].append(order_id)\<close> on the \<^verbatim>\<open>defaultdict\<close>.\<close>

definition level_append :: "(rat \<rightharpoonup> string list) \<Rightarrow> rat \<Rightarrow> string \<Rightarrow> (rat \<rightharpoonup> string list)" where
  "level_append m p oid = m(p \<mapsto> (case m p of None \<Rightarrow> [] | Some ids \<Rightarrow> ids) @ [oid])"

text \<open>
  The removal of an order from one price level, as \<^verbatim>\<open>process_replace_order\<close>,
  \<^verbatim>\<open>process_cancel_order\<close> and \<^verbatim>\<open>_cleanup_order\<close> all write it: \<^verbatim>\<open>list.remove\<close> takes
  the first occurrence out, and a level left empty is deleted.
\<close>

definition level_remove :: "(rat \<rightharpoonup> string list) \<Rightarrow> rat \<Rightarrow> string \<Rightarrow> (rat \<rightharpoonup> string list)" where
  "level_remove m p oid =
     (case m p of
        None \<Rightarrow> m
      | Some ids \<Rightarrow>
          if oid \<in> set ids
          then (let ids1 = remove1 oid ids in if ids1 = [] then m(p := None) else m(p \<mapsto> ids1))
          else m)"

text \<open>
  \<^verbatim>\<open>_confirm_iceberg\<close>. The order object is threaded through together with the
  detector; the caller stores it back under its key in \<^verbatim>\<open>active_orders\<close>, where the
  Python object lives.
\<close>

definition confirm_iceberg ::
  "detector \<Rightarrow> iceberg_order_v2 \<Rightarrow> confirm_reason \<Rightarrow> rat \<Rightarrow> detector \<times> iceberg_order_v2" where
  "confirm_iceberg d ord reason now =
     (let ord1 = ord\<lparr> is_confirmed_iceberg := True, iceberg_start_time := Some now \<rparr>;
          ord2 = ord1\<lparr> last_reported_filled := total_filled ord1 \<rparr>;
          d1 = d\<lparr> confirmed_icebergs := insert (order_id ord2) (confirmed_icebergs d) \<rparr>;
          d2 = d1\<lparr> total_icebergs_detected := total_icebergs_detected d1 + 1 \<rparr>
      in (d2\<lparr> notifications := notifications d2 @ [DetectionNotification (order_id ord2) reason] \<rparr>,
          ord2))"

text \<open>
  \<^verbatim>\<open>_analyze_iceberg_pattern_percentage\<close>. Its five rules run one after the other on
  the same order; each tests \<^verbatim>\<open>is_confirmed_iceberg\<close> as the rules before it left it.
  Each rule is a function of the detector and the order that the rules before it
  produced (the pair \<open>s\<close>); \<^verbatim>\<open>iceberg_score\<close> and \<^verbatim>\<open>execution_ratio\<close> are computed once,
  before the first rule.
\<close>

definition pattern1_multiple_refills ::
  "rat \<Rightarrow> rat \<Rightarrow> detector \<times> iceberg_order_v2 \<Rightarrow> detector \<times> iceberg_order_v2" where
  "pattern1_multiple_refills iceberg_score now s =
     (if refill_count (snd s) \<ge> 1
      then (if \<not> is_confirmed_iceberg (snd s) \<and> iceberg_score \<ge> 4/10
            then confirm_iceberg (fst s) (snd s) RefillPattern now else s)
      else s)"

definition pattern2_high_execution_ratio ::
  "rat \<Rightarrow> rat \<Rightarrow> detector \<times> iceberg_order_v2 \<Rightarrow> detector \<times> iceberg_order_v2" where
  "pattern2_high_execution_ratio execution_ratio now s =
     (if execution_ratio \<ge> alert_execution_ratio_threshold \<and>
         current_size (snd s) \<ge> min_size_seen (snd s) * (8/10)
      then (if \<not> is_confirmed_iceberg (snd s)
            then confirm_iceberg (fst s) (snd s) HighExecutionRatio now else s)
      else s)"

definition pattern3_volume_threshold_breach ::
  "rat \<Rightarrow> detector \<times> iceberg_order_v2 \<Rightarrow> detector \<times> iceberg_order_v2" where
  "pattern3_volume_threshold_breach now s =
     (if total_filled (snd s) \<ge> alert_total_filled_threshold \<and>
         size_decrease_count (snd s) \<ge> 2 \<and>
         \<not> is_confirmed_iceberg (snd s)
      then confirm_iceberg (fst s) (snd s) LargeVolume now else s)"

definition pattern4_partial_executions ::
  "rat \<Rightarrow> detector \<times> iceberg_order_v2 \<Rightarrow> detector \<times> iceberg_order_v2" where
  "pattern4_partial_executions now s =
     (if total_filled (snd s) \<ge> alert_total_filled_threshold \<and>
         size_decrease_count (snd s) \<ge> 3 \<and>
         \<not> is_confirmed_iceberg (snd s)
      then confirm_iceberg (fst s) (snd s) WithPartials now else s)"

definition pattern5_hidden_liquidity ::
  "rat \<Rightarrow> rat \<Rightarrow> detector \<times> iceberg_order_v2 \<Rightarrow> detector \<times> iceberg_order_v2" where
  "pattern5_hidden_liquidity execution_ratio now s =
     (if execution_ratio \<ge> alert_execution_ratio_threshold \<and>
         current_size (snd s) \<ge> initial_size (snd s) * (6/10) \<and>
         \<not> is_confirmed_iceberg (snd s)
      then confirm_iceberg (fst s) (snd s) HiddenLiquidity now else s)"

text \<open>
  The thresholds are computed first (and not used); an exception there would leave
  the function. Without the alert condition no rule runs.
\<close>

definition analyze_iceberg_pattern_percentage ::
  "detector \<Rightarrow> iceberg_order_v2 \<Rightarrow> rat \<Rightarrow> rat \<Rightarrow> rat \<Rightarrow> detector \<times> iceberg_order_v2" where
  "analyze_iceberg_pattern_percentage d ord old_size new_size now =
     (case get_dynamic_thresholds (market_metrics d) of
        Inl e \<Rightarrow> (d, ord)
      | Inr ths \<Rightarrow>
         (let iceberg_score = get_iceberg_score ord;
              execution_ratio = get_execution_ratio ord;
              should_alert = (execution_ratio \<ge> alert_execution_ratio_threshold \<or>
                              total_filled ord \<ge> alert_total_filled_threshold)
          in if \<not> should_alert then (d, ord)
             else pattern5_hidden_liquidity execution_ratio now
                   (pattern4_partial_executions now
                     (pattern3_volume_threshold_breach now
                       (pattern2_high_execution_ratio execution_ratio now
                         (pattern1_multiple_refills iceberg_score now (d, ord)))))))"

text \<open>\<^verbatim>\<open>_handle_iceberg_near_completion\<close>, with the throttle of 20 units.\<close>

definition handle_iceberg_near_completion ::
  "detector \<Rightarrow> iceberg_order_v2 \<Rightarrow> detector \<times> iceberg_order_v2" where
  "handle_iceberg_near_completion d ord =
     (if is_confirmed_iceberg ord \<and> execution_percentage ord \<ge> execution_threshold
      then (if total_filled ord - last_reported_filled ord \<ge> 20
            then (d\<lparr> notifications := notifications d @ [ExecutionUpdate (order_id ord)] \<rparr>,
                  ord\<lparr> last_reported_filled := total_filled ord \<rparr>)
            else (d, ord))
      else (d, ord))"

text \<open>
  \<^verbatim>\<open>process_new_order\<close>. An exception of \<^verbatim>\<open>get_dynamic_thresholds\<close> would leave the
  function after the metrics were fed.
\<close>

definition process_new_order ::
  "detector \<Rightarrow> string \<Rightarrow> bool \<Rightarrow> rat \<Rightarrow> rat \<Rightarrow> string option \<Rightarrow> rat \<Rightarrow> detector" where
  "process_new_order d oid bid p sz tid now =
     (let actual_size = normalize_size d sz;
          d1 = d\<lparr> market_metrics := mm_add_order (market_metrics d) actual_size now \<rparr>
      in case get_dynamic_thresholds (market_metrics d1) of
           Inl e \<Rightarrow> d1
         | Inr ths \<Rightarrow>
             if actual_size \<ge> t_min_visible_size ths
             then (let iceberg = IcebergOrder oid p actual_size bid now tid;
                       d2 = d1\<lparr> active_orders := AList.update oid iceberg (active_orders d1) \<rparr>;
                       d3 = d2\<lparr> orders_by_price := level_append (orders_by_price d2) p oid \<rparr>;
                       distance_pips = get_distance_from_best d3 p bid
                   in if actual_size \<ge> t_trigger_size ths \<and>
                         actual_size \<le> t_max_visible_size ths \<and> distance_pips \<le> 50
                      then d3\<lparr> potential_icebergs := insert oid (potential_icebergs d3) \<rparr>
                      else d3)
             else d1)"

text \<open>
  \<^verbatim>\<open>process_replace_order\<close>: move the order between price levels when the price
  changed, apply the replace event to the order, and analyse the pattern.
\<close>

definition process_replace_order :: "detector \<Rightarrow> string \<Rightarrow> rat \<Rightarrow> rat \<Rightarrow> rat \<Rightarrow> detector" where
  "process_replace_order d oid p sz now =
     (case map_of (active_orders d) oid of
        None \<Rightarrow> d
      | Some ord \<Rightarrow>
         (let actual_size = normalize_size d sz;
              old_size = current_size ord;
              old_price = current_price ord;
              price_changed = (p \<noteq> old_price);
              d1 = (if price_changed
                    then d\<lparr> orders_by_price :=
                             level_append (level_remove (orders_by_price d) old_price oid) p oid \<rparr>
                    else d);
              ord1 = add_replace_event ord actual_size now (if price_changed then Some p else None);
              res = analyze_iceberg_pattern_percentage d1 ord1 old_size actual_size now
          in (fst res)\<lparr> active_orders := AList.update oid (snd res) (active_orders (fst res)) \<rparr>))"

text \<open>\<^verbatim>\<open>process_order_execution\<close>.\<close>

definition process_order_execution :: "detector \<Rightarrow> string \<Rightarrow> rat \<Rightarrow> rat \<Rightarrow> detector" where
  "process_order_execution d oid executed_size now =
     (case map_of (active_orders d) oid of
        None \<Rightarrow> d
      | Some ord \<Rightarrow>
         (let ord1 = add_execution ord executed_size now;
              res = (if is_confirmed_iceberg ord1 \<and>
                        (get_execution_ratio ord1 \<ge> alert_execution_ratio_threshold \<or>
                         total_filled ord1 \<ge> alert_total_filled_threshold)
                     then (if execution_percentage ord1 \<ge> execution_threshold
                           then handle_iceberg_near_completion d ord1
                           else (d, ord1))
                     else (d, ord1))
          in (fst res)\<lparr> active_orders := AList.update oid (snd res) (active_orders (fst res)) \<rparr>))"

text \<open>\<^verbatim>\<open>_cleanup_order\<close>.\<close>

definition cleanup_order :: "detector \<Rightarrow> string \<Rightarrow> detector" where
  "cleanup_order d oid =
     (let d1 = (case map_of (active_orders d) oid of
                  None \<Rightarrow> d
                | Some ord \<Rightarrow>
                    d\<lparr> orders_by_price :=
                         foldl (\<lambda>m p. level_remove m p oid) (orders_by_price d) (price_history ord),
                       active_orders := AList.delete oid (active_orders d) \<rparr>);
          d2 = d1\<lparr> potential_icebergs := potential_icebergs d1 - {oid} \<rparr>
      in d2\<lparr> confirmed_icebergs := confirmed_icebergs d2 - {oid} \<rparr>)"

text \<open>\<^verbatim>\<open>process_cancel_order\<close>.\<close>

definition process_cancel_order :: "detector \<Rightarrow> string \<Rightarrow> rat \<Rightarrow> detector" where
  "process_cancel_order d oid now =
     (case map_of (active_orders d) oid of
        None \<Rightarrow> d
      | Some ord \<Rightarrow>
         (let d1 = d\<lparr> orders_by_price :=
                       foldl (\<lambda>m p. level_remove m p oid) (orders_by_price d) (price_history ord) \<rparr>;
              d2 = (if is_confirmed_iceberg ord
                    then (let ord1 = ord\<lparr> completion_time := Some now \<rparr>;
                              d3 = d1\<lparr> active_orders := AList.update oid ord1 (active_orders d1),
                                       completed_icebergs := (completed_icebergs d1)(oid \<mapsto> ord1) \<rparr>;
                              d4 = d3\<lparr> notifications :=
                                         notifications d3 @ [CompletionNotification (order_id ord1)] \<rparr>
                          in d4\<lparr> total_icebergs_completed := total_icebergs_completed d4 + 1 \<rparr>)
                    else d1)
          in cleanup_order d2 oid))"

text \<open>
  \<^verbatim>\<open>_match_trade_to_orders_v2\<close>: the tracked orders resting at the trade price on the
  other side share the trade evenly. \<^verbatim>\<open>potential_orders\<close> is a list of order objects;
  it is kept as the list of their keys, and each object is read from
  \<^verbatim>\<open>active_orders\<close> when its turn comes, as the loop reads the live object.
\<close>

definition match_one :: "rat \<Rightarrow> rat \<Rightarrow> detector \<Rightarrow> string \<Rightarrow> detector" where
  "match_one execution_per_order now d oid =
     (case map_of (active_orders d) oid of
        None \<Rightarrow> d
      | Some ord \<Rightarrow>
         (let actual_execution = min execution_per_order (current_size ord)
          in if actual_execution > 0
             then process_order_execution d (order_id ord) actual_execution now
             else d))"

definition match_trade_to_orders_v2 :: "detector \<Rightarrow> trade_info \<Rightarrow> detector" where
  "match_trade_to_orders_v2 d trade =
     (case orders_by_price d (tr_price trade) of
        None \<Rightarrow> d
      | Some ids \<Rightarrow>
         (let potential_orders =
                filter (\<lambda>oid. case map_of (active_orders d) oid of
                                 None \<Rightarrow> False
                               | Some ord \<Rightarrow> is_bid ord \<noteq> tr_is_bid trade) ids
          in if potential_orders \<noteq> []
             then (let execution_per_order = tr_size trade / of_nat (length potential_orders)
                   in foldl (match_one execution_per_order (tr_timestamp trade)) d potential_orders)
             else d))"

text \<open>\<^verbatim>\<open>RealMBOIcebergDetector.add_trade\<close>.\<close>

definition add_trade :: "detector \<Rightarrow> rat \<Rightarrow> rat \<Rightarrow> bool \<Rightarrow> rat \<Rightarrow> detector" where
  "add_trade d p sz bid now =
     (let trade = \<lparr> tr_timestamp = now, tr_price = p, tr_size = sz, tr_is_bid = bid \<rparr>;
          d1 = d\<lparr> recent_trades := deque_append 200 (recent_trades d) trade \<rparr>;
          d2 = d1\<lparr> market_metrics := mm_add_trade (market_metrics d1) sz now \<rparr>;
          d3 = d2\<lparr> recent_volume := recent_volume d2 + sz \<rparr>;
          d4 = (if now - last_volume_sample d3 \<ge> volume_sample_interval
                then d3\<lparr> market_metrics := mm_add_volume_sample (market_metrics d3) (recent_volume d3),
                         recent_volume := 0, last_volume_sample := now \<rparr>
                else d3)
      in match_trade_to_orders_v2 d4 trade)"

text \<open>\<^verbatim>\<open>cleanup_old_orders\<close>.\<close>

definition cleanup_old_orders :: "detector \<Rightarrow> rat \<Rightarrow> detector" where
  "cleanup_old_orders d current_time =
     (let expired_orders =
            map fst (filter (\<lambda>entry. current_time - last_update (snd entry) > time_window)
                       (active_orders d))
      in foldl cleanup_order d expired_orders)"

section \<open>The event handlers\<close>

text \<open>
  The handlers that Bookmap calls, for the one instrument whose detector is
  registered. An order identifier of a trade is optional and tested for truth:
  \<^verbatim>\<open>None\<close> and the empty identifier both fail the test. The time stamp of the two
  direct executions is read after the trade was added; the model uses one clock
  reading for the whole event.
\<close>

definition truthy_id :: "string option \<Rightarrow> bool" where
  "truthy_id x = (case x of None \<Rightarrow> False | Some s \<Rightarrow> s \<noteq> [])"

definition handle_trades ::
  "detector \<Rightarrow> rat \<Rightarrow> rat \<Rightarrow> bool \<Rightarrow> string option \<Rightarrow> string option \<Rightarrow> rat \<Rightarrow> detector" where
  "handle_trades d p sz bid aggressor_order_id passive_order_id now =
     (let actual_size = normalize_size d sz;
          d1 = add_trade d p actual_size bid now;
          d2 = (if truthy_id passive_order_id \<and>
                   map_of (active_orders d1) (the passive_order_id) \<noteq> None
                then process_order_execution d1 (the passive_order_id) actual_size now
                else d1)
      in if truthy_id aggressor_order_id \<and>
            map_of (active_orders d2) (the aggressor_order_id) \<noteq> None
         then process_order_execution d2 (the aggressor_order_id) actual_size now
         else d2)"

text \<open>
  \<^verbatim>\<open>handle_mbo_event\<close>. \<^verbatim>\<open>debug_mode\<close> is always on, so the thresholds are computed for
  the log line before the event is dispatched; an exception there would drop the
  event.
\<close>

definition handle_mbo_event ::
  "detector \<Rightarrow> string \<Rightarrow> string \<Rightarrow> rat \<Rightarrow> rat \<Rightarrow> string option \<Rightarrow> rat \<Rightarrow> detector" where
  "handle_mbo_event d event_type oid p sz tid now =
     (case get_dynamic_thresholds (market_metrics d) of
        Inl e \<Rightarrow> d
      | Inr ths \<Rightarrow>
          if event_type = ''ASK_NEW'' then process_new_order d oid False p sz tid now
          else if event_type = ''BID_NEW'' then process_new_order d oid True p sz tid now
          else if event_type = ''REPLACE'' then process_replace_order d oid p sz now
          else if event_type = ''CANCEL'' then process_cancel_order d oid now
          else d)"

text \<open>\<^verbatim>\<open>handle_depth_info\<close> and \<^verbatim>\<open>on_interval\<close>, as far as the detector is concerned.\<close>

definition handle_depth_info :: "detector \<Rightarrow> bool \<Rightarrow> rat \<Rightarrow> rat \<Rightarrow> detector" where
  "handle_depth_info d bid p sz = update_depth d bid p sz"

definition on_interval :: "detector \<Rightarrow> rat \<Rightarrow> detector" where
  "on_interval d now = cleanup_old_orders d now"

text \<open>The stream of events that the feed adapter delivers, each with the clock reading.\<close>

datatype event =
  MboEvent string string rat rat "string option" rat
| TradeEvent rat rat bool "string option" "string option" rat
| DepthEvent bool rat rat
| IntervalEvent rat

fun handle_event :: "detector \<Rightarrow> event \<Rightarrow> detector" where
  "handle_event d (MboEvent event_type oid p sz tid now) =
     handle_mbo_event d event_type oid p sz tid now"
| "handle_event d (TradeEvent p sz bid aggressor_order_id passive_order_id now) =
     handle_trades d p sz bid aggressor_order_id passive_order_id now"
| "handle_event d (DepthEvent bid p sz) = handle_depth_info d bid p sz"
| "handle_event d (IntervalEvent now) = on_interval d now"

definition handle_events :: "detector \<Rightarrow> event list \<Rightarrow> detector" where
  "handle_events d es = foldl handle_event d es"

section \<open>Invariants\<close>


text \<open>
  Every entry of \<^verbatim>\<open>active_orders\<close> is stored under the \<^verbatim>\<open>order_id\<close> of its order, as
  \<^verbatim>\<open>process_new_order\<close> creates it.
\<close>

definition keys_ok :: "detector \<Rightarrow> bool" where
  "keys_ok d = list_all (\<lambda>entry. order_id (snd entry) = fst entry) (active_orders d)"

text \<open>
  The confirmation status of an identifier: not tracked, tracked and not confirmed, or
  tracked and confirmed. An order's life runs through the phases 0 (tracked, not
  confirmed), 1 (confirmed) and 2 (no longer tracked).
\<close>

definition conf :: "detector \<Rightarrow> string \<Rightarrow> bool option" where
  "conf d oid = map_option is_confirmed_iceberg (map_of (active_orders d) oid)"

definition phase :: "detector \<Rightarrow> string \<Rightarrow> nat" where
  "phase d oid = (case conf d oid of Some False \<Rightarrow> 0 | Some True \<Rightarrow> 1 | None \<Rightarrow> 2)"

definition budget :: "detector \<Rightarrow> string \<Rightarrow> nat" where
  "budget d oid = (if conf d oid = Some False then 1 else 0)"

text \<open>The detection notifications of one order in a log.\<close>

fun is_detection :: "string \<Rightarrow> notification \<Rightarrow> bool" where
  "is_detection oid (DetectionNotification i r) = (i = oid)"
| "is_detection oid (ExecutionUpdate i) = False"
| "is_detection oid (CompletionNotification i) = False"

definition detections :: "string \<Rightarrow> notification list \<Rightarrow> nat" where
  "detections oid ns = length (filter (is_detection oid) ns)"

text \<open>
  A log in which every execution update of the order comes after a detection
  notification of the order, or the order was confirmed (\<open>c\<close>) before the log began.
\<close>

fun progress_after_detection :: "string \<Rightarrow> bool \<Rightarrow> notification list \<Rightarrow> bool" where
  "progress_after_detection oid c [] = True"
| "progress_after_detection oid c (DetectionNotification i r # ns) =
     progress_after_detection oid (c \<or> i = oid) ns"
| "progress_after_detection oid c (ExecutionUpdate i # ns) =
     ((i \<noteq> oid \<or> c) \<and> progress_after_detection oid c ns)"
| "progress_after_detection oid c (CompletionNotification i # ns) =
     progress_after_detection oid c ns"

text \<open>The notifications that a run of the handlers added to the log.\<close>

definition emitted :: "detector \<Rightarrow> detector \<Rightarrow> notification list" where
  "emitted d d1 = drop (length (notifications d)) (notifications d1)"

text \<open>An event that creates an order under the identifier.\<close>

fun creates :: "string \<Rightarrow> event \<Rightarrow> bool" where
  "creates oid (MboEvent event_type i p sz tid now) =
     ((event_type = ''ASK_NEW'' \<or> event_type = ''BID_NEW'') \<and> i = oid)"
| "creates oid (TradeEvent p sz bid aggressor_order_id passive_order_id now) = False"
| "creates oid (DepthEvent bid p sz) = False"
| "creates oid (IntervalEvent now) = False"

text \<open>
  What one operation of the detector does to the log and to the confirmation status
  of the tracked orders: nothing; an execution update of a confirmed order; the
  detection of an order not confirmed so far, which becomes confirmed; or the
  removal of an order, with or without a completion notification.
\<close>

definition local_effect :: "detector \<Rightarrow> detector \<Rightarrow> bool" where
  "local_effect d d1 =
     (keys_ok d1 \<and>
      ((notifications d1 = notifications d \<and> (\<forall>j. conf d1 j = conf d j))
       \<or> (\<exists>k. notifications d1 = notifications d @ [ExecutionUpdate k] \<and>
                conf d k = Some True \<and> (\<forall>j. conf d1 j = conf d j))
       \<or> (\<exists>k r. notifications d1 = notifications d @ [DetectionNotification k r] \<and>
                conf d k = Some False \<and>
                (\<forall>j. conf d1 j = (if j = k then Some True else conf d j)))
       \<or> (\<exists>k. (notifications d1 = notifications d \<or>
                 notifications d1 = notifications d @ [CompletionNotification k]) \<and>
                (\<forall>j. conf d1 j = (if j = k then None else conf d j)))))"

text \<open>The creation of an order under the identifier \<open>k\<close>.\<close>

definition creation_effect :: "string \<Rightarrow> detector \<Rightarrow> detector \<Rightarrow> bool" where
  "creation_effect k d d1 =
     (keys_ok d1 \<and> notifications d1 = notifications d \<and>
      (\<forall>j. conf d1 j = (if j = k then Some False else conf d j)))"

text \<open>
  Two relations between the detector before and after a run of handlers, both
  reflexive and transitive. In a trace step the log grows, and every execution update
  of the order follows its confirmation. In a lifetime step the order moves forward
  through its phases, and the detections added to the log are paid from the budget
  of one detection that only an order not yet confirmed has.
\<close>

definition trace_step :: "string \<Rightarrow> detector \<Rightarrow> detector \<Rightarrow> bool" where
  "trace_step oid d d1 =
     (keys_ok d1 \<and>
      (\<exists>new. notifications d1 = notifications d @ new \<and>
         progress_after_detection oid (conf d oid = Some True) new \<and>
         (conf d1 oid = Some True \<longrightarrow> conf d oid = Some True \<or> 0 < detections oid new)))"

definition lifetime_step :: "string \<Rightarrow> detector \<Rightarrow> detector \<Rightarrow> bool" where
  "lifetime_step oid d d1 =
     (\<exists>new. notifications d1 = notifications d @ new \<and>
        phase d oid \<le> phase d1 oid \<and>
        detections oid new + budget d1 oid \<le> budget d oid)"

text \<open>
  What the analysis of one order may do: nothing to the log and to the confirmation of
  the order, or one detection notification for an order not confirmed before, which
  it leaves confirmed.
\<close>

definition analysis_outcome ::
  "detector \<Rightarrow> iceberg_order_v2 \<Rightarrow> detector \<times> iceberg_order_v2 \<Rightarrow> bool" where
  "analysis_outcome d ord s =
     (active_orders (fst s) = active_orders d \<and> order_id (snd s) = order_id ord \<and>
      ((notifications (fst s) = notifications d \<and>
        is_confirmed_iceberg (snd s) = is_confirmed_iceberg ord)
       \<or> (\<not> is_confirmed_iceberg ord \<and> is_confirmed_iceberg (snd s) \<and>
           (\<exists>r. notifications (fst s) =
                  notifications d @ [DetectionNotification (order_id ord) r]))))"

text \<open>Both relations at once.\<close>

definition both_steps :: "string \<Rightarrow> detector \<Rightarrow> detector \<Rightarrow> bool" where
  "both_steps oid d d1 = (trace_step oid d d1 \<and> lifetime_step oid d d1)"

text \<open>
  A run of the detector used to instantiate the theorems: an ask order \<open>A\<close> of size 40 at
  price 100 is created; its size drops to 10 three times and is refilled to 40 twice,
  which confirms it on the third drop; then a trade names it as the passive order, it
  is refilled and drops again, and the timer ticks.
\<close>

definition demo_detector :: detector where
  "demo_detector = handle_events (RealMBOIcebergDetector ''XAU'' 1 (1/100) 0)
                     [MboEvent ''ASK_NEW'' ''A'' 100 40 None 10]"

definition demo_refills :: "event list" where
  "demo_refills =
     [MboEvent ''REPLACE'' ''A'' 100 10 None 11, MboEvent ''REPLACE'' ''A'' 100 40 None 12,
      MboEvent ''REPLACE'' ''A'' 100 10 None 13, MboEvent ''REPLACE'' ''A'' 100 40 None 14,
      MboEvent ''REPLACE'' ''A'' 100 10 None 15]"

definition demo_fills :: "event list" where
  "demo_fills =
     [TradeEvent 99 20 True None (Some ''A'') 16, MboEvent ''REPLACE'' ''A'' 100 40 None 17,
      MboEvent ''REPLACE'' ''A'' 100 5 None 18, IntervalEvent 19]"

section \<open>Properties of one order\<close>

subsection \<open>What an execution and a replace event change\<close>
lemma add_execution_fields [simp]:
  "current_size (add_execution ord f t) = current_size ord"
  "initial_size (add_execution ord f t) = initial_size ord"
  "min_size_seen (add_execution ord f t) = min_size_seen ord"
  "max_visible_size (add_execution ord f t) = max_visible_size ord"
  "price_history (add_execution ord f t) = price_history ord"
  "current_price (add_execution ord f t) = current_price ord"
  "refill_count (add_execution ord f t) = refill_count ord"
  "size_decrease_count (add_execution ord f t) = size_decrease_count ord"
  "consecutive_refills (add_execution ord f t) = consecutive_refills ord"
  "price_changes (add_execution ord f t) = price_changes ord"
  "replace_events (add_execution ord f t) = replace_events ord"
  "is_confirmed_iceberg (add_execution ord f t) = is_confirmed_iceberg ord"
  "last_reported_filled (add_execution ord f t) = last_reported_filled ord"
  "order_id (add_execution ord f t) = order_id ord"
  "is_bid (add_execution ord f t) = is_bid ord"
  "total_filled (add_execution ord f t) = total_filled ord + f"
  by (simp_all add: add_execution_def Let_def)

lemma add_execution_v3_fields [simp]:
  "current_size (add_execution_v3 ord f t a) = current_size ord"
  "min_size_seen (add_execution_v3 ord f t a) = min_size_seen ord"
  "max_visible_size (add_execution_v3 ord f t a) = max_visible_size ord"
  "price_history (add_execution_v3 ord f t a) = price_history ord"
  "current_price (add_execution_v3 ord f t a) = current_price ord"
  "refill_count (add_execution_v3 ord f t a) = refill_count ord"
  "size_decrease_count (add_execution_v3 ord f t a) = size_decrease_count ord"
  "price_changes (add_execution_v3 ord f t a) = price_changes ord"
  by (simp_all add: add_execution_v3_def Let_def)

text \<open>
  Claim C9. \<^verbatim>\<open>add_execution\<close> changes only the fill accounting (\<^verbatim>\<open>total_filled\<close>, the
  log \<^verbatim>\<open>execution_events\<close> in V2 or the split \<^verbatim>\<open>active_filled\<close> / \<^verbatim>\<open>passive_filled\<close>
  in V3, \<^verbatim>\<open>execution_percentage\<close>) and \<^verbatim>\<open>last_update\<close>: the result is the order with
  new values in those attributes and in no other. In particular \<^verbatim>\<open>current_size\<close>,
  \<^verbatim>\<open>min_size_seen\<close>, \<^verbatim>\<open>max_visible_size\<close>, \<^verbatim>\<open>price_history\<close>, \<^verbatim>\<open>current_price\<close> and the
  refill and decrease counters stay as they were, in both versions.
\<close>
theorem add_execution_frame:
  "(\<exists>ee tf lu ep. add_execution ord f t =
       ord\<lparr> execution_events := ee, total_filled := tf, last_update := lu,
            execution_percentage := ep \<rparr>)
   \<and> (\<exists>af pf tf lu ep. add_execution_v3 ord3 f t a =
       ord3\<lparr> active_filled := af, passive_filled := pf, total_filled := tf, last_update := lu,
            execution_percentage := ep \<rparr>)
   \<and> current_size (add_execution ord f t) = current_size ord
   \<and> min_size_seen (add_execution ord f t) = min_size_seen ord
   \<and> max_visible_size (add_execution ord f t) = max_visible_size ord
   \<and> price_history (add_execution ord f t) = price_history ord
   \<and> current_price (add_execution ord f t) = current_price ord
   \<and> refill_count (add_execution ord f t) = refill_count ord
   \<and> size_decrease_count (add_execution ord f t) = size_decrease_count ord
   \<and> consecutive_refills (add_execution ord f t) = consecutive_refills ord
   \<and> current_size (add_execution_v3 ord3 f t a) = current_size ord3
   \<and> min_size_seen (add_execution_v3 ord3 f t a) = min_size_seen ord3
   \<and> max_visible_size (add_execution_v3 ord3 f t a) = max_visible_size ord3
   \<and> price_history (add_execution_v3 ord3 f t a) = price_history ord3
   \<and> current_price (add_execution_v3 ord3 f t a) = current_price ord3
   \<and> refill_count (add_execution_v3 ord3 f t a) = refill_count ord3
   \<and> size_decrease_count (add_execution_v3 ord3 f t a) = size_decrease_count ord3"
proof -
  have v2: "\<exists>ee tf lu ep. add_execution ord f t =
       ord\<lparr> execution_events := ee, total_filled := tf, last_update := lu,
            execution_percentage := ep \<rparr>"
    by (cases ord) (simp add: add_execution_def Let_def)
  have v3: "\<exists>af pf tf lu ep. add_execution_v3 ord3 f t a =
       ord3\<lparr> active_filled := af, passive_filled := pf, total_filled := tf, last_update := lu,
            execution_percentage := ep \<rparr>"
    by (cases ord3) (simp add: add_execution_v3_def Let_def)
  show ?thesis using v2 v3 by simp
qed
lemma add_replace_event_current_size [simp]:
  "current_size (add_replace_event ord n t np) = n"
  by (simp add: add_replace_event_def Let_def)

lemma add_replace_event_initial_size [simp]:
  "initial_size (add_replace_event ord n t np) = initial_size ord"
  by (simp add: add_replace_event_def Let_def split: option.splits)

lemma add_replace_event_replace_events:
  "replace_events (add_replace_event ord n t np) =
     replace_events ord @ [\<lparr> re_timestamp = t, re_old_size = current_size ord, re_new_size = n,
                      re_size_change = n - current_size ord, re_old_price = current_price ord,
                      re_new_price = (case np of
                                        None \<Rightarrow> current_price ord
                                      | Some p \<Rightarrow> if p \<noteq> 0 then p else current_price ord),
                      re_price_changed = (case np of None \<Rightarrow> False | Some p \<Rightarrow> p \<noteq> current_price ord) \<rparr>]"
  by (simp add: add_replace_event_def Let_def split: option.splits)







subsection \<open>The price history\<close>





subsection \<open>The visible size\<close>
lemma size_step:
  "current_size (apply_order_event ord e) - net_replace_delta (apply_order_event ord e)
     = current_size ord - net_replace_delta ord"
  by (cases e) (simp_all add: net_replace_delta_def add_replace_event_replace_events)

lemma size_run:
  "current_size (apply_order_events ord es) - net_replace_delta (apply_order_events ord es)
     = current_size ord - net_replace_delta ord"
  unfolding apply_order_events_def
  by (induction es arbitrary: ord) (simp_all add: size_step)

lemma initial_size_step: "initial_size (apply_order_event ord e) = initial_size ord"
  by (cases e) simp_all

lemma initial_size_run: "initial_size (apply_order_events ord es) = initial_size ord"
  unfolding apply_order_events_def
  by (induction es arbitrary: ord) (simp_all add: initial_size_step)

lemma nonneg_step: "0 \<le> current_size ord \<Longrightarrow> replace_size_nonneg e \<Longrightarrow> 0 \<le> current_size (apply_order_event ord e)"
  by (cases e) simp_all

lemma nonneg_run: "0 \<le> current_size ord \<Longrightarrow> \<forall>e\<in>set es. replace_size_nonneg e \<Longrightarrow> 0 \<le> current_size (apply_order_events ord es)"
  unfolding apply_order_events_def
  by (induction es arbitrary: ord) (simp_all add: nonneg_step)

text \<open>
  Claim C2, as amended. For every order and every sequence of replace events and
  executions applied to it since its creation, \<^verbatim>\<open>current_size\<close> equals \<^verbatim>\<open>initial_size\<close>
  plus the net of all replace-driven size deltas; executions do not enter the sum.
  \<^verbatim>\<open>current_size\<close> is not negative when the initial size and the size of every replace
  event are not negative.
\<close>
theorem current_size_is_initial_plus_replace_deltas:
  "current_size (apply_order_events (IcebergOrder oid p isize bid t0 tid) es)
     = initial_size (apply_order_events (IcebergOrder oid p isize bid t0 tid) es)
       + net_replace_delta (apply_order_events (IcebergOrder oid p isize bid t0 tid) es)
   \<and> (0 \<le> isize \<and> (\<forall>e\<in>set es. replace_size_nonneg e) \<longrightarrow>
        0 \<le> current_size (apply_order_events (IcebergOrder oid p isize bid t0 tid) es))"
proof -
  let ?o = "IcebergOrder oid p isize bid t0 tid"
  have "current_size (apply_order_events ?o es) - net_replace_delta (apply_order_events ?o es)
       = current_size ?o - net_replace_delta ?o" by (rule size_run)
  moreover have "current_size ?o = isize" "net_replace_delta ?o = 0" "initial_size ?o = isize"
    by (simp_all add: IcebergOrder_def net_replace_delta_def)
  ultimately have eq: "current_size (apply_order_events ?o es)
     = initial_size (apply_order_events ?o es) + net_replace_delta (apply_order_events ?o es)"
    by (simp add: initial_size_run)
  have nn: "0 \<le> isize \<and> (\<forall>e\<in>set es. replace_size_nonneg e) \<longrightarrow> 0 \<le> current_size (apply_order_events ?o es)"
    using nonneg_run[of ?o es] \<open>current_size ?o = isize\<close> by simp
  show ?thesis using eq nn by blast
qed

theorem current_size_is_initial_plus_replace_deltas_witness:
  "current_size (apply_order_events (IcebergOrder ''A'' 100 40 True 0 None)
        [Replace 10 1 None, Execution 5 2, Replace 25 3 (Some 101), Execution 5 4]) = 25
   \<and> initial_size (apply_order_events (IcebergOrder ''A'' 100 40 True 0 None)
        [Replace 10 1 None, Execution 5 2, Replace 25 3 (Some 101), Execution 5 4]) = 40
   \<and> net_replace_delta (apply_order_events (IcebergOrder ''A'' 100 40 True 0 None)
        [Replace 10 1 None, Execution 5 2, Replace 25 3 (Some 101), Execution 5 4]) = - 15
   \<and> (0::rat) \<le> 40
   \<and> list_all replace_size_nonneg [Replace 10 1 None, Execution 5 2, Replace 25 3 (Some 101), Execution 5 4]
   \<and> 0 \<le> current_size (apply_order_events (IcebergOrder ''A'' 100 40 True 0 None)
        [Replace 10 1 None, Execution 5 2, Replace 25 3 (Some 101), Execution 5 4])"
  using current_size_is_initial_plus_replace_deltas
          [of "''A''" 100 40 True 0 None
              "[Replace 10 1 None, Execution 5 2, Replace 25 3 (Some 101), Execution 5 4]"]
  by (simp add: apply_order_events_def IcebergOrder_def add_replace_event_def add_execution_def
        net_replace_delta_def Let_def)

text \<open>
  Claim C2 as stated fails: a fill of 10 on a fresh order of size 40 leaves
  \<^verbatim>\<open>current_size\<close> at 40, not 30, and a replace event with size -5 makes it negative.
\<close>
theorem current_size_counterexample:
  "current_size (apply_order_events (IcebergOrder ''A'' 100 40 True 0 None) [Execution 10 1])
     \<noteq> initial_size (apply_order_events (IcebergOrder ''A'' 100 40 True 0 None) [Execution 10 1])
        + net_replace_delta (apply_order_events (IcebergOrder ''A'' 100 40 True 0 None) [Execution 10 1])
        - fills_since_last_replace [Execution 10 1]
   \<and> current_size (apply_order_events (IcebergOrder ''A'' 100 40 True 0 None) [Replace (- 5) 1 None]) < 0"
  by (simp add: apply_order_events_def IcebergOrder_def add_replace_event_def add_execution_def
        net_replace_delta_def fills_since_last_replace_def Let_def)

subsection \<open>Replace handling in V2 and in V3\<close>



subsection \<open>The score\<close>
lemma score_closed:
  "get_iceberg_score ord = min (size_consistency_score ord + refill_pattern_score ord + execution_volume_score ord) 1"
  by (simp add: get_iceberg_score_def size_consistency_score_def refill_pattern_score_def
       execution_volume_score_def Let_def)

lemma score_v3_closed:
  "get_iceberg_score_v3 ord = min (size_consistency_score ord + refill_pattern_score ord + execution_volume_score ord) 1"
  by (simp add: get_iceberg_score_v3_def size_consistency_score_def refill_pattern_score_def
       execution_volume_score_def Let_def)

lemma parts_bounds:
  "0 \<le> size_consistency_score ord" "size_consistency_score ord \<le> 3/10"
  "0 \<le> refill_pattern_score ord" "refill_pattern_score ord \<le> 4/10"
  "0 \<le> execution_volume_score ord" "execution_volume_score ord \<le> 3/10"
  by (simp_all add: size_consistency_score_def refill_pattern_score_def execution_volume_score_def
        min_def)

text \<open>
  Claim C6, as amended. In every order state \<^verbatim>\<open>get_iceberg_score\<close> is the sum, capped at
  1, of 0.3 if \<^verbatim>\<open>min_size_seen / max_visible_size > 0.3\<close>, of 0.1 per refill capped at
  0.4 once there are at least two refills (nothing for a single refill), and of 0.1 per
  unit of an execution ratio above 1.5 capped at 0.3. The two versions agree, and the
  result lies between 0 and 1.
\<close>
theorem iceberg_score_formula:
  "get_iceberg_score ord = min (size_consistency_score ord + refill_pattern_score ord + execution_volume_score ord) 1
   \<and> get_iceberg_score_v3 ord = get_iceberg_score ord
   \<and> 0 \<le> get_iceberg_score ord \<and> get_iceberg_score ord \<le> 1"
  using parts_bounds[of ord] by (simp add: score_closed score_v3_closed)

text \<open>
  Claim C6 as stated fails: after one refill the code's score is 0, where 0.1 per
  refill gives 0.1.
\<close>
theorem iceberg_score_counterexample:
  "refill_count (apply_order_events (IcebergOrder ''A'' 100 40 True 0 None)
       [Replace 10 1 None, Replace 40 2 None]) = 1
   \<and> get_iceberg_score (apply_order_events (IcebergOrder ''A'' 100 40 True 0 None)
       [Replace 10 1 None, Replace 40 2 None]) = 0
   \<and> spec_iceberg_score (apply_order_events (IcebergOrder ''A'' 100 40 True 0 None)
       [Replace 10 1 None, Replace 40 2 None]) = 1/10"
  by (simp add: apply_order_events_def IcebergOrder_def add_replace_event_def add_execution_def
        get_iceberg_score_def spec_iceberg_score_def get_execution_ratio_def Let_def)

section \<open>Properties of the market metrics\<close>
lemma py_index_in_range:
  "0 \<le> i \<Longrightarrow> i < int (length xs) \<Longrightarrow> py_index xs i = Inr (xs ! nat i)"
  by (simp add: py_index_def)

lemma percentile_nonneg:
  assumes "0 \<le> p" and "order_sizes mm \<noteq> []"
  shows "get_percentile_order_size mm p =
     Inr (max (sort (order_sizes mm) !
                 nat (min \<lfloor>p / 100 * of_nat (length (order_sizes mm))\<rfloor>
                          (int (length (order_sizes mm)) - 1))) 20)"
proof -
  let ?s = "sort (order_sizes mm)"
  let ?x = "p / 100 * of_nat (length ?s)"
  let ?i = "min \<lfloor>?x\<rfloor> (int (length ?s) - 1)"
  have n: "0 < length ?s" using assms(2) by simp
  have nn: "0 \<le> ?x" using assms(1) by simp
  then have fl: "0 \<le> \<lfloor>?x\<rfloor>" by simp
  have i0: "0 \<le> ?i" using fl n by simp
  have i1: "?i < int (length ?s)" using n by simp
  have pi: "py_int ?x = \<lfloor>?x\<rfloor>"
    using nn by (simp only: py_int_def if_True)
  have idx: "py_index ?s ?i = Inr (?s ! nat ?i)"
    using i0 i1 by (rule py_index_in_range)
  have "get_percentile_order_size mm p =
     Inr (max (?s ! nat ?i) 20)"
    unfolding get_percentile_order_size_def Let_def
    by (simp only: assms(2) if_False pi idx sum.case)
  then show ?thesis by (simp only: length_sort)
qed



lemma get_dynamic_thresholds_Inr:
  "\<exists>ths. get_dynamic_thresholds mm = Inr ths \<and> 10 \<le> t_min_visible_size ths"
proof -
  have "(0::rat) \<le> 75" by simp
  from percentile_nonneg[OF this] obtain v where "get_percentile_order_size mm 75 = Inr v"
    by (cases "order_sizes mm = []") (auto simp: get_percentile_order_size_def)
  then show ?thesis by (simp add: get_dynamic_thresholds_def Let_def)
qed

section \<open>Properties of the detector\<close>

text \<open>
  Claim C1 fails on the code. A resting ask order \<open>A\<close> of size 40 at price 100 is
  tracked; a buy trade of size 10 at price 100 names \<open>A\<close> as its passive order.
  \<^verbatim>\<open>handle_trades\<close> first matches the trade to the orders at the price (a fill of 10)
  and then applies the explicit fill (10 more): \<^verbatim>\<open>total_filled\<close> goes from 0 to 20.
\<close>

theorem explicit_passive_fill_counted_twice:
  "map_option total_filled (map_of (active_orders (handle_events
       (RealMBOIcebergDetector ''XAU'' 1 (1/100) 0)
       [MboEvent ''ASK_NEW'' ''A'' 100 40 None 10])) ''A'') = Some 0
   \<and> map_option total_filled (map_of (active_orders (handle_events
       (RealMBOIcebergDetector ''XAU'' 1 (1/100) 0)
       [MboEvent ''ASK_NEW'' ''A'' 100 40 None 10,
        TradeEvent 100 10 True None (Some ''A'') 11])) ''A'') = Some 20"
  by code_simp

subsection \<open>Events with a negative size\<close>

lemma normalize_size_neg: "sz < 0 \<Longrightarrow> normalize_size d sz < 0"
  by (simp add: normalize_size_def divide_neg_pos)

lemma process_new_order_small:
  assumes "normalize_size d sz < 10"
  shows "process_new_order d oid bid p sz tid now =
           d\<lparr> market_metrics := mm_add_order (market_metrics d) (normalize_size d sz) now \<rparr>"
proof -
  obtain ths where t: "get_dynamic_thresholds (mm_add_order (market_metrics d) (normalize_size d sz) now) = Inr ths"
      and m: "10 \<le> t_min_visible_size ths"
    using get_dynamic_thresholds_Inr by blast
  show ?thesis using t m assms by (simp add: process_new_order_def Let_def)
qed

lemma match_one_nonpos: "epo \<le> 0 \<Longrightarrow> match_one epo now d oid = d"
  by (simp add: match_one_def Let_def split: option.splits)

lemma foldl_match_one_nonpos: "epo \<le> 0 \<Longrightarrow> foldl (match_one epo now) d ids = d"
  by (induction ids) (simp_all add: match_one_nonpos)

lemma match_trade_nonpos: "tr_size trade \<le> 0 \<Longrightarrow> match_trade_to_orders_v2 d trade = d"
  by (simp add: match_trade_to_orders_v2_def Let_def foldl_match_one_nonpos divide_nonpos_nonneg
        split: option.splits)

lemma add_trade_nonpos:
  "sz \<le> 0 \<Longrightarrow> active_orders (add_trade d p sz bid now) = active_orders d
     \<and> notifications (add_trade d p sz bid now) = notifications d
     \<and> orders_by_price (add_trade d p sz bid now) = orders_by_price d"
  by (simp add: add_trade_def Let_def match_trade_nonpos)

text \<open>
  Claim C8, as amended. No handler tests the sign of a size and none rejects an event.
  A new-order event with a negative size never creates a tracked order (its
  normalised size is below \<^verbatim>\<open>min_visible_size\<close>, which is at least 10) and sends
  nothing, and a trade with a negative size fills no order through the matching at
  its price level: both leave every tracked order as it was. Replace events and
  executions by explicit order identifier are not tested for their sign either.
\<close>

theorem negative_size_new_order_and_matching:
  "sz < 0 \<Longrightarrow>
     active_orders (handle_mbo_event d ''ASK_NEW'' oid p sz tid now) = active_orders d
   \<and> active_orders (handle_mbo_event d ''BID_NEW'' oid p sz tid now) = active_orders d
   \<and> orders_by_price (handle_mbo_event d ''ASK_NEW'' oid p sz tid now) = orders_by_price d
   \<and> orders_by_price (handle_mbo_event d ''BID_NEW'' oid p sz tid now) = orders_by_price d
   \<and> notifications (handle_mbo_event d ''ASK_NEW'' oid p sz tid now) = notifications d
   \<and> notifications (handle_mbo_event d ''BID_NEW'' oid p sz tid now) = notifications d
   \<and> active_orders (add_trade d p (normalize_size d sz) bid now) = active_orders d
   \<and> active_orders (handle_trades d p sz bid None None now) = active_orders d
   \<and> notifications (handle_trades d p sz bid None None now) = notifications d"
proof -
  assume neg: "sz < 0"
  then have n: "normalize_size d sz < 0" by (rule normalize_size_neg)
  then have small: "normalize_size d sz < 10" by simp
  obtain ths where t: "get_dynamic_thresholds (market_metrics d) = Inr ths"
    using get_dynamic_thresholds_Inr by blast
  have new: "handle_mbo_event d ''ASK_NEW'' oid p sz tid now = process_new_order d oid False p sz tid now"
       "handle_mbo_event d ''BID_NEW'' oid p sz tid now = process_new_order d oid True p sz tid now"
    using t by (simp_all add: handle_mbo_event_def)
  have tr: "handle_trades d p sz bid None None now = add_trade d p (normalize_size d sz) bid now"
    by (simp add: handle_trades_def truthy_id_def Let_def)
  from n have le: "normalize_size d sz \<le> 0" by simp
  show ?thesis
    using add_trade_nonpos[OF le, of d p bid now]
    by (simp add: new tr process_new_order_small[OF small])
qed

theorem negative_size_new_order_and_matching_witness:
  "(- 5::rat) < 0
   \<and> active_orders (handle_mbo_event (handle_events (RealMBOIcebergDetector ''XAU'' 1 (1/100) 0)
          [MboEvent ''ASK_NEW'' ''A'' 100 40 None 10]) ''BID_NEW'' ''B'' 100 (- 5) None 11)
       = active_orders (handle_events (RealMBOIcebergDetector ''XAU'' 1 (1/100) 0)
          [MboEvent ''ASK_NEW'' ''A'' 100 40 None 10])
   \<and> active_orders (handle_trades (handle_events (RealMBOIcebergDetector ''XAU'' 1 (1/100) 0)
          [MboEvent ''ASK_NEW'' ''A'' 100 40 None 10]) 100 (- 5) True None None 11)
       = active_orders (handle_events (RealMBOIcebergDetector ''XAU'' 1 (1/100) 0)
          [MboEvent ''ASK_NEW'' ''A'' 100 40 None 10])"
  using negative_size_new_order_and_matching
          [of "- 5" "handle_events (RealMBOIcebergDetector ''XAU'' 1 (1/100) 0)
                 [MboEvent ''ASK_NEW'' ''A'' 100 40 None 10]" "''B''" 100 None 11 True]
  by simp

text \<open>
  Claim C8 as stated fails: a replace event with size -5 sets \<^verbatim>\<open>current_size\<close> of the
  tracked order to -5 and records a fill of 45, and a trade of size -10 that names the
  order as its passive order takes \<^verbatim>\<open>total_filled\<close> from 0 to -10.
\<close>

theorem negative_size_counterexample:
  "map_option current_size (map_of (active_orders (handle_events
       (RealMBOIcebergDetector ''XAU'' 1 (1/100) 0)
       [MboEvent ''ASK_NEW'' ''A'' 100 40 None 10,
        MboEvent ''REPLACE'' ''A'' 100 (- 5) None 11])) ''A'') = Some (- 5)
   \<and> map_option total_filled (map_of (active_orders (handle_events
       (RealMBOIcebergDetector ''XAU'' 1 (1/100) 0)
       [MboEvent ''ASK_NEW'' ''A'' 100 40 None 10,
        MboEvent ''REPLACE'' ''A'' 100 (- 5) None 11])) ''A'') = Some 45
   \<and> map_option total_filled (map_of (active_orders (handle_events
       (RealMBOIcebergDetector ''XAU'' 1 (1/100) 0)
       [MboEvent ''ASK_NEW'' ''A'' 100 40 None 10,
        TradeEvent 99 (- 10) True None (Some ''A'') 11])) ''A'') = Some (- 10)"
  by code_simp

subsection \<open>Steps of the detector\<close>

text \<open>
  Each operation of the detector has one of the local effects; every handler, being a
  sequence of such operations, is a trace step, and a lifetime step for every
  identifier that it does not create.
\<close>

lemma list_all_update:
  "list_all P al \<Longrightarrow> P (k, v) \<Longrightarrow> list_all P (AList.update k v al)"
  by (induction al) auto

lemma list_all_delete: "list_all P al \<Longrightarrow> list_all P (AList.delete k al)"
  by (induction al) auto

lemma keys_ok_lookup:
  "keys_ok d \<Longrightarrow> map_of (active_orders d) k = Some ord \<Longrightarrow> order_id ord = k"
proof -
  assume k: "keys_ok d" and m: "map_of (active_orders d) k = Some ord"
  from m have "(k, ord) \<in> set (active_orders d)" by (rule map_of_SomeD)
  with k show ?thesis by (auto simp: keys_ok_def list_all_iff)
qed

lemma keys_ok_cong: "active_orders d1 = active_orders d \<Longrightarrow> keys_ok d1 = keys_ok d"
  by (simp add: keys_ok_def)

lemma conf_cong: "active_orders d1 = active_orders d \<Longrightarrow> conf d1 j = conf d j"
  by (simp add: conf_def)

lemma detections_append [simp]:
  "detections oid (xs @ ys) = detections oid xs + detections oid ys"
  by (simp add: detections_def)

lemma detections_simps [simp]:
  "detections oid [] = 0"
  "detections oid (DetectionNotification i r # ns) = (if i = oid then 1 else 0) + detections oid ns"
  "detections oid (ExecutionUpdate i # ns) = detections oid ns"
  "detections oid (CompletionNotification i # ns) = detections oid ns"
  by (simp_all add: detections_def)

lemma pad_mono:
  "progress_after_detection oid c xs \<Longrightarrow> c \<longrightarrow> c' \<Longrightarrow> progress_after_detection oid c' xs"
proof (induction xs arbitrary: c c')
  case Nil
  then show ?case by simp
next
  case (Cons x xs)
  show ?case
  proof (cases x)
    case (DetectionNotification i r)
    with Cons.prems have "progress_after_detection oid (c \<or> i = oid) xs" by simp
    moreover have "(c \<or> i = oid) \<longrightarrow> (c' \<or> i = oid)" using Cons.prems(2) by blast
    ultimately have "progress_after_detection oid (c' \<or> i = oid) xs" by (rule Cons.IH)
    with DetectionNotification show ?thesis by simp
  next
    case (ExecutionUpdate i)
    with Cons.prems have "progress_after_detection oid c xs" and "i \<noteq> oid \<or> c" by simp_all
    with Cons.IH[of c c'] Cons.prems(2) ExecutionUpdate show ?thesis by auto
  next
    case (CompletionNotification i)
    with Cons.prems have "progress_after_detection oid c xs" by simp
    with Cons.IH[of c c'] Cons.prems(2) CompletionNotification show ?thesis by auto
  qed
qed

lemma pad_append:
  "progress_after_detection oid c (xs @ ys) =
     (progress_after_detection oid c xs \<and>
      progress_after_detection oid (c \<or> 0 < detections oid xs) ys)"
proof (induction oid c xs rule: progress_after_detection.induct)
  case (1 oid c)
  then show ?case by simp
next
  case (2 oid c i r ns)
  then show ?case by (cases "i = oid") (simp_all add: disj_ac)
next
  case (3 oid c i ns)
  then show ?case by auto
next
  case (4 oid c i ns)
  then show ?case by simp
qed

lemma trace_step_refl: "keys_ok d \<Longrightarrow> trace_step oid d d"
  by (simp add: trace_step_def)

lemma trace_step_trans:
  assumes "trace_step oid d d1" and "trace_step oid d1 d2"
  shows "trace_step oid d d2"
proof -
  from assms(1) obtain n1 where n1: "notifications d1 = notifications d @ n1"
      and p1: "progress_after_detection oid (conf d oid = Some True) n1"
      and c1: "conf d1 oid = Some True \<longrightarrow> conf d oid = Some True \<or> 0 < detections oid n1"
    by (auto simp: trace_step_def)
  from assms(2) obtain n2 where k2: "keys_ok d2" and n2: "notifications d2 = notifications d1 @ n2"
      and p2: "progress_after_detection oid (conf d1 oid = Some True) n2"
      and c2: "conf d2 oid = Some True \<longrightarrow> conf d1 oid = Some True \<or> 0 < detections oid n2"
    by (auto simp: trace_step_def)
  have p2': "progress_after_detection oid (conf d oid = Some True \<or> 0 < detections oid n1) n2"
    using p2 c1 by (rule pad_mono)
  have "notifications d2 = notifications d @ (n1 @ n2)" using n1 n2 by simp
  moreover have "progress_after_detection oid (conf d oid = Some True) (n1 @ n2)"
    using p1 p2' by (simp add: pad_append)
  moreover have "conf d2 oid = Some True \<longrightarrow> conf d oid = Some True \<or> 0 < detections oid (n1 @ n2)"
    using c1 c2 by auto
  ultimately show ?thesis using k2 unfolding trace_step_def by blast
qed

lemma lifetime_step_refl: "lifetime_step oid d d"
  by (simp add: lifetime_step_def)

lemma lifetime_step_trans:
  assumes "lifetime_step oid d d1" and "lifetime_step oid d1 d2"
  shows "lifetime_step oid d d2"
proof -
  from assms(1) obtain n1 where n1: "notifications d1 = notifications d @ n1"
      and p1: "phase d oid \<le> phase d1 oid"
      and b1: "detections oid n1 + budget d1 oid \<le> budget d oid"
    by (auto simp: lifetime_step_def)
  from assms(2) obtain n2 where n2: "notifications d2 = notifications d1 @ n2"
      and p2: "phase d1 oid \<le> phase d2 oid"
      and b2: "detections oid n2 + budget d2 oid \<le> budget d1 oid"
    by (auto simp: lifetime_step_def)
  have "notifications d2 = notifications d @ (n1 @ n2)" using n1 n2 by simp
  moreover have "phase d oid \<le> phase d2 oid" using p1 p2 by simp
  moreover have "detections oid (n1 @ n2) + budget d2 oid \<le> budget d oid"
    using b1 b2 by simp
  ultimately show ?thesis unfolding lifetime_step_def by blast
qed

lemma local_effect_trace: "local_effect d d1 \<Longrightarrow> trace_step oid d d1"
  unfolding local_effect_def trace_step_def
  by (elim conjE disjE exE) (auto split: if_splits)

lemma local_effect_lifetime: "local_effect d d1 \<Longrightarrow> lifetime_step oid d d1"
  unfolding local_effect_def lifetime_step_def phase_def budget_def
  by (elim conjE disjE exE) (auto split: if_splits option.splits bool.splits)

lemma creation_trace: "creation_effect k d d1 \<Longrightarrow> trace_step oid d d1"
  unfolding creation_effect_def trace_step_def by auto

lemma creation_lifetime: "creation_effect k d d1 \<Longrightarrow> k \<noteq> oid \<Longrightarrow> lifetime_step oid d d1"
  unfolding creation_effect_def lifetime_step_def phase_def budget_def by auto

lemma add_replace_event_frame [simp]:
  "is_confirmed_iceberg (add_replace_event ord n t np) = is_confirmed_iceberg ord"
  "order_id (add_replace_event ord n t np) = order_id ord"
  by (simp_all add: add_replace_event_def Let_def split: option.splits)

lemma confirm_iceberg_simps [simp]:
  "active_orders (fst (confirm_iceberg d ord r now)) = active_orders d"
  "notifications (fst (confirm_iceberg d ord r now)) =
     notifications d @ [DetectionNotification (order_id ord) r]"
  "is_confirmed_iceberg (snd (confirm_iceberg d ord r now))"
  "order_id (snd (confirm_iceberg d ord r now)) = order_id ord"
  by (simp_all add: confirm_iceberg_def Let_def)

lemma outcome_init: "analysis_outcome d ord (d, ord)"
  by (simp add: analysis_outcome_def)

lemma outcome_confirm:
  "analysis_outcome d ord s \<Longrightarrow> \<not> is_confirmed_iceberg (snd s) \<Longrightarrow>
     analysis_outcome d ord (confirm_iceberg (fst s) (snd s) r now)"
  by (auto simp: analysis_outcome_def)

lemma outcome_patterns:
  "analysis_outcome d ord s \<Longrightarrow> analysis_outcome d ord (pattern1_multiple_refills sc now s)"
  "analysis_outcome d ord s \<Longrightarrow> analysis_outcome d ord (pattern2_high_execution_ratio er now s)"
  "analysis_outcome d ord s \<Longrightarrow> analysis_outcome d ord (pattern3_volume_threshold_breach now s)"
  "analysis_outcome d ord s \<Longrightarrow> analysis_outcome d ord (pattern4_partial_executions now s)"
  "analysis_outcome d ord s \<Longrightarrow> analysis_outcome d ord (pattern5_hidden_liquidity er now s)"
  by (simp_all add: pattern1_multiple_refills_def pattern2_high_execution_ratio_def
        pattern3_volume_threshold_breach_def pattern4_partial_executions_def
        pattern5_hidden_liquidity_def outcome_confirm)

lemma analyze_outcome:
  "analysis_outcome d ord (analyze_iceberg_pattern_percentage d ord os ns now)"
  by (simp add: analyze_iceberg_pattern_percentage_def Let_def outcome_init outcome_patterns
        split: sum.splits)

lemma local_effect_silent:
  "keys_ok d \<Longrightarrow> active_orders d1 = active_orders d \<Longrightarrow> notifications d1 = notifications d \<Longrightarrow>
     local_effect d d1"
  by (simp add: local_effect_def keys_ok_def conf_def)

lemma local_effect_same:
  "keys_ok d1 \<Longrightarrow> notifications d1 = notifications d \<Longrightarrow> \<forall>j. conf d1 j = conf d j \<Longrightarrow>
     local_effect d d1"
  unfolding local_effect_def by simp

lemma local_effect_update:
  "keys_ok d1 \<Longrightarrow> notifications d1 = notifications d @ [ExecutionUpdate k] \<Longrightarrow>
     conf d k = Some True \<Longrightarrow> \<forall>j. conf d1 j = conf d j \<Longrightarrow> local_effect d d1"
  unfolding local_effect_def
  apply (rule conjI, assumption)
  apply (rule disjI2, rule disjI1)
  apply (rule exI[of _ k])
  apply simp
  done

lemma local_effect_detection:
  "keys_ok d1 \<Longrightarrow> notifications d1 = notifications d @ [DetectionNotification k r] \<Longrightarrow>
     conf d k = Some False \<Longrightarrow> \<forall>j. conf d1 j = (if j = k then Some True else conf d j) \<Longrightarrow>
     local_effect d d1"
  unfolding local_effect_def
  apply (rule conjI, assumption)
  apply (rule disjI2, rule disjI2, rule disjI1)
  apply (rule exI[of _ k], rule exI[of _ r])
  apply simp
  done

lemma local_effect_removal:
  "keys_ok d1 \<Longrightarrow>
     notifications d1 = notifications d \<or>
     notifications d1 = notifications d @ [CompletionNotification k] \<Longrightarrow>
     \<forall>j. conf d1 j = (if j = k then None else conf d j) \<Longrightarrow> local_effect d d1"
  unfolding local_effect_def
  apply (rule conjI, assumption)
  apply (rule disjI2, rule disjI2, rule disjI2)
  apply (rule exI[of _ k])
  apply simp
  done

lemma process_replace_order_effect:
  assumes "keys_ok d"
  shows "local_effect d (process_replace_order d oid p sz now)"
proof (cases "map_of (active_orders d) oid")
  case None
  then have "process_replace_order d oid p sz now = d" by (simp add: process_replace_order_def)
  then show ?thesis using assms by (simp add: local_effect_silent)
next
  case (Some ord)
  obtain d1 np where eq: "process_replace_order d oid p sz now =
        (fst (analyze_iceberg_pattern_percentage d1
                (add_replace_event ord (normalize_size d sz) now np)
                (current_size ord) (normalize_size d sz) now))
          \<lparr> active_orders := AList.update oid
              (snd (analyze_iceberg_pattern_percentage d1
                (add_replace_event ord (normalize_size d sz) now np)
                (current_size ord) (normalize_size d sz) now))
              (active_orders (fst (analyze_iceberg_pattern_percentage d1
                (add_replace_event ord (normalize_size d sz) now np)
                (current_size ord) (normalize_size d sz) now))) \<rparr>"
      and a1: "active_orders d1 = active_orders d"
      and n1: "notifications d1 = notifications d"
  proof (cases "p \<noteq> current_price ord")
    case True
    show ?thesis
      by (rule that[of "d\<lparr> orders_by_price :=
             level_append (level_remove (orders_by_price d) (current_price ord) oid) p oid \<rparr>"
             "Some p"])
         (simp_all add: process_replace_order_def Let_def Some True)
  next
    case False
    show ?thesis
      by (rule that[of d None]) (use False in \<open>simp_all add: process_replace_order_def Let_def Some\<close>)
  qed
  define ord1 where "ord1 = add_replace_event ord (normalize_size d sz) now np"
  define res where "res = analyze_iceberg_pattern_percentage d1 ord1
                (current_size ord) (normalize_size d sz) now"
  have eq': "process_replace_order d oid p sz now =
        (fst res)\<lparr> active_orders := AList.update oid (snd res) (active_orders (fst res)) \<rparr>"
    using eq by (simp add: res_def ord1_def)
  have out: "analysis_outcome d1 ord1 res" unfolding res_def by (rule analyze_outcome)
  have oid: "order_id ord = oid" using assms Some by (rule keys_ok_lookup)
  have c1: "is_confirmed_iceberg ord1 = is_confirmed_iceberg ord" and o1: "order_id ord1 = oid"
    by (simp_all add: ord1_def oid)
  let ?d' = "process_replace_order d oid p sz now"
  from out have act: "active_orders (fst res) = active_orders d" and ido: "order_id (snd res) = oid"
    by (simp_all add: analysis_outcome_def a1 o1)
  have k': "keys_ok ?d'"
    using assms by (simp add: eq' keys_ok_def act ido list_all_update)
  have cf: "conf ?d' j = (if j = oid then Some (is_confirmed_iceberg (snd res)) else conf d j)" for j
    by (simp add: eq' conf_def act update_conv')
  have nt: "notifications ?d' = notifications (fst res)" by (simp add: eq')
  from out consider
      (same) "notifications (fst res) = notifications d"
             "is_confirmed_iceberg (snd res) = is_confirmed_iceberg ord"
    | (det) r where "\<not> is_confirmed_iceberg ord" "is_confirmed_iceberg (snd res)"
             "notifications (fst res) = notifications d @ [DetectionNotification oid r]"
    by (auto simp: analysis_outcome_def n1 c1 o1)
  then show ?thesis
  proof cases
    case same
    have "conf d oid = Some (is_confirmed_iceberg ord)" using Some by (simp add: conf_def)
    then have "\<forall>j. conf ?d' j = conf d j"
      using same(2) by (simp add: cf)
    then show ?thesis using k' nt same(1) by (simp add: local_effect_same)
  next
    case det
    have "conf d oid = Some False" using det(1) Some by (simp add: conf_def)
    moreover have "\<forall>j. conf ?d' j = (if j = oid then Some True else conf d j)"
      using det(2) by (simp add: cf)
    ultimately show ?thesis using k' nt det(3) by (simp add: local_effect_detection)
  qed
qed

lemma conf_update:
  "active_orders d1 = AList.update k v (active_orders d) \<Longrightarrow>
     conf d1 j = (if j = k then Some (is_confirmed_iceberg v) else conf d j)"
  by (simp add: conf_def update_conv')

lemma conf_delete:
  "active_orders d1 = AList.delete k (active_orders d) \<Longrightarrow>
     conf d1 j = (if j = k then None else conf d j)"
  by (simp add: conf_def delete_conv')

lemma cleanup_order_active:
  "active_orders (cleanup_order d oid) = AList.delete oid (active_orders d)"
proof (cases "map_of (active_orders d) oid")
  case None
  then have "oid \<notin> fst ` set (active_orders d)" by (simp add: map_of_eq_None_iff)
  then have "AList.delete oid (active_orders d) = active_orders d" by simp
  with None show ?thesis by (simp add: cleanup_order_def Let_def)
next
  case (Some ord)
  then show ?thesis by (simp add: cleanup_order_def Let_def)
qed

lemma cleanup_order_notifications:
  "notifications (cleanup_order d oid) = notifications d"
  by (cases "map_of (active_orders d) oid") (simp_all add: cleanup_order_def Let_def)

lemma process_order_execution_None:
  "map_of (active_orders d) oid = None \<Longrightarrow> process_order_execution d oid sz now = d"
  by (simp add: process_order_execution_def)

lemma process_order_execution_Some:
  "map_of (active_orders d) oid = Some ord \<Longrightarrow>
     process_order_execution d oid sz now =
       (if is_confirmed_iceberg ord \<and>
           (get_execution_ratio (add_execution ord sz now) \<ge> alert_execution_ratio_threshold \<or>
            total_filled (add_execution ord sz now) \<ge> alert_total_filled_threshold) \<and>
           execution_percentage (add_execution ord sz now) \<ge> execution_threshold \<and>
           total_filled (add_execution ord sz now) - last_reported_filled ord \<ge> 20
        then d\<lparr> active_orders := AList.update oid
                  ((add_execution ord sz now)
                     \<lparr> last_reported_filled := total_filled (add_execution ord sz now) \<rparr>)
                  (active_orders d),
                notifications := notifications d @ [ExecutionUpdate (order_id ord)] \<rparr>
        else d\<lparr> active_orders := AList.update oid (add_execution ord sz now) (active_orders d) \<rparr>)"
  by (auto simp: process_order_execution_def handle_iceberg_near_completion_def Let_def)

lemma process_order_execution_effect:
  assumes "keys_ok d"
  shows "local_effect d (process_order_execution d oid sz now)"
proof (cases "map_of (active_orders d) oid")
  case None
  then show ?thesis using assms by (simp add: process_order_execution_None local_effect_silent)
next
  case (Some ord)
  have oid: "order_id ord = oid" using assms Some by (rule keys_ok_lookup)
  have cd: "conf d oid = Some (is_confirmed_iceberg ord)" using Some by (simp add: conf_def)
  let ?d' = "process_order_execution d oid sz now"
  let ?ord1 = "add_execution ord sz now"
  show ?thesis
  proof (cases "is_confirmed_iceberg ord \<and>
           (get_execution_ratio ?ord1 \<ge> alert_execution_ratio_threshold \<or>
            total_filled ?ord1 \<ge> alert_total_filled_threshold) \<and>
           execution_percentage ?ord1 \<ge> execution_threshold \<and>
           total_filled ?ord1 - last_reported_filled ord \<ge> 20")
    case True
    then have eq: "?d' = d\<lparr> active_orders := AList.update oid
                  (?ord1\<lparr> last_reported_filled := total_filled ?ord1 \<rparr>) (active_orders d),
                notifications := notifications d @ [ExecutionUpdate (order_id ord)] \<rparr>"
      unfolding process_order_execution_Some[OF Some] by (rule if_P)
    have k: "keys_ok ?d'" using assms by (simp add: eq keys_ok_def list_all_update oid)
    have n: "notifications ?d' = notifications d @ [ExecutionUpdate oid]" by (simp add: eq oid)
    have "active_orders ?d' = AList.update oid
            (?ord1\<lparr> last_reported_filled := total_filled ?ord1 \<rparr>) (active_orders d)"
      by (simp add: eq)
    from conf_update[OF this] have c: "\<forall>j. conf ?d' j = conf d j"
      using cd by simp
    from True have "conf d oid = Some True" using cd by simp
    with k n c show ?thesis by (simp add: local_effect_update)
  next
    case False
    then have eq: "?d' = d\<lparr> active_orders := AList.update oid ?ord1 (active_orders d) \<rparr>"
      unfolding process_order_execution_Some[OF Some] by (rule if_not_P)
    have k: "keys_ok ?d'" using assms by (simp add: eq keys_ok_def list_all_update oid)
    have n: "notifications ?d' = notifications d" by (simp add: eq)
    have "active_orders ?d' = AList.update oid ?ord1 (active_orders d)"
      by (simp add: eq)
    from conf_update[OF this] have c: "\<forall>j. conf ?d' j = conf d j"
      using cd by simp
    from k n c show ?thesis by (simp add: local_effect_same)
  qed
qed

lemma cleanup_order_effect:
  assumes "keys_ok d"
  shows "local_effect d (cleanup_order d oid)"
proof -
  let ?d' = "cleanup_order d oid"
  have a: "active_orders ?d' = AList.delete oid (active_orders d)"
    by (rule cleanup_order_active)
  have n: "notifications ?d' = notifications d"
    by (rule cleanup_order_notifications)
  have k: "keys_ok ?d'" using assms by (simp add: keys_ok_def a list_all_delete)
  have c: "\<forall>j. conf ?d' j = (if j = oid then None else conf d j)"
    using conf_delete[OF a] by simp
  show ?thesis by (rule local_effect_removal[OF k _ c]) (simp add: n)
qed

lemma process_cancel_order_effect:
  assumes "keys_ok d"
  shows "local_effect d (process_cancel_order d oid now)"
proof (cases "map_of (active_orders d) oid")
  case None
  then show ?thesis using assms by (simp add: process_cancel_order_def local_effect_silent)
next
  case (Some ord)
  have oid: "order_id ord = oid" using assms Some by (rule keys_ok_lookup)
  let ?d' = "process_cancel_order d oid now"
  obtain d2 where eq: "?d' = cleanup_order d2 oid"
      and k2: "keys_ok d2"
      and n2: "notifications d2 = notifications d \<or>
               notifications d2 = notifications d @ [CompletionNotification oid]"
      and c2: "\<forall>j. j \<noteq> oid \<longrightarrow> conf d2 j = conf d j"
  proof (cases "is_confirmed_iceberg ord")
    case True
    show ?thesis
      apply (rule that[of "d\<lparr> orders_by_price :=
               foldl (\<lambda>m p. level_remove m p oid) (orders_by_price d) (price_history ord),
             active_orders := AList.update oid (ord\<lparr> completion_time := Some now \<rparr>) (active_orders d),
             completed_icebergs := (completed_icebergs d)(oid \<mapsto> ord\<lparr> completion_time := Some now \<rparr>),
             notifications := notifications d @ [CompletionNotification oid],
             total_icebergs_completed := total_icebergs_completed d + 1 \<rparr>"])
      using assms True
         apply (simp_all add: process_cancel_order_def Let_def Some oid keys_ok_def
                  list_all_update conf_def update_conv')
      done
  next
    case False
    show ?thesis
      apply (rule that[of "d\<lparr> orders_by_price :=
               foldl (\<lambda>m p. level_remove m p oid) (orders_by_price d) (price_history ord) \<rparr>"])
      using assms False
         apply (simp_all add: process_cancel_order_def Let_def Some keys_ok_def conf_def)
      done
  qed
  have a: "active_orders ?d' = AList.delete oid (active_orders d2)"
    unfolding eq by (rule cleanup_order_active)
  have n: "notifications ?d' = notifications d2"
    unfolding eq by (rule cleanup_order_notifications)
  have k: "keys_ok ?d'" using k2 by (simp add: keys_ok_def a list_all_delete)
  have c: "\<forall>j. conf ?d' j = (if j = oid then None else conf d j)"
    using conf_delete[OF a] c2 by simp
  show ?thesis by (rule local_effect_removal[OF k _ c]) (use n n2 in simp)
qed

lemma process_new_order_effect:
  assumes "keys_ok d"
  shows "local_effect d (process_new_order d oid bid p sz tid now) \<or>
         creation_effect oid d (process_new_order d oid bid p sz tid now)"
proof -
  let ?d' = "process_new_order d oid bid p sz tid now"
  let ?ord = "IcebergOrder oid p (normalize_size d sz) bid now tid"
  have n: "notifications ?d' = notifications d"
    by (simp add: process_new_order_def Let_def split: sum.splits)
  have a: "active_orders ?d' = active_orders d \<or>
           active_orders ?d' = AList.update oid ?ord (active_orders d)"
    by (simp add: process_new_order_def Let_def split: sum.splits)
  then show ?thesis
  proof
    assume "active_orders ?d' = active_orders d"
    with assms n show ?thesis by (simp add: local_effect_silent)
  next
    assume u: "active_orders ?d' = AList.update oid ?ord (active_orders d)"
    have "order_id ?ord = oid" "\<not> is_confirmed_iceberg ?ord" by (simp_all add: IcebergOrder_def)
    then have "keys_ok ?d'" and "\<forall>j. conf ?d' j = (if j = oid then Some False else conf d j)"
      using assms by (simp_all add: keys_ok_def u list_all_update conf_def update_conv')
    with n show ?thesis by (simp add: creation_effect_def)
  qed
qed

lemma update_depth_effect: "keys_ok d \<Longrightarrow> local_effect d (update_depth d bid p sz)"
  by (rule local_effect_silent) (simp_all add: update_depth_def Let_def)

lemma both_steps_refl: "keys_ok d \<Longrightarrow> both_steps oid d d"
  by (simp add: both_steps_def trace_step_refl lifetime_step_refl)

lemma both_steps_trans:
  "both_steps oid d d1 \<Longrightarrow> both_steps oid d1 d2 \<Longrightarrow> both_steps oid d d2"
  unfolding both_steps_def
  by (blast intro: trace_step_trans lifetime_step_trans)

lemma both_steps_keys: "both_steps oid d d1 \<Longrightarrow> keys_ok d1"
  by (simp add: both_steps_def trace_step_def)

lemma local_effect_both: "local_effect d d1 \<Longrightarrow> both_steps oid d d1"
  by (simp add: both_steps_def local_effect_trace local_effect_lifetime)

lemma match_one_both:
  assumes "keys_ok d"
  shows "both_steps oid d (match_one epo now d k)"
proof (cases "map_of (active_orders d) k")
  case None
  then show ?thesis using assms by (simp add: match_one_def both_steps_refl)
next
  case (Some ord)
  show ?thesis
  proof (cases "min epo (current_size ord) > 0")
    case True
    then have "match_one epo now d k =
        process_order_execution d (order_id ord) (min epo (current_size ord)) now"
      unfolding match_one_def Let_def by (simp only: Some option.case if_True)
    then show ?thesis
      using process_order_execution_effect[OF assms] by (simp add: local_effect_both)
  next
    case False
    then have "match_one epo now d k = d"
      unfolding match_one_def Let_def by (simp only: Some option.case if_False)
    then show ?thesis using assms by (simp add: both_steps_refl)
  qed
qed

lemma foldl_both:
  assumes step: "\<And>d k. keys_ok d \<Longrightarrow> both_steps oid d (f d k)"
  shows "keys_ok d \<Longrightarrow> both_steps oid d (foldl f d ks)"
proof (induction ks arbitrary: d)
  case Nil
  then show ?case by (simp add: both_steps_refl)
next
  case (Cons k ks)
  have s1: "both_steps oid d (f d k)" using Cons.prems by (rule step)
  then have "keys_ok (f d k)" by (rule both_steps_keys)
  then have "both_steps oid (f d k) (foldl f (f d k) ks)" by (rule Cons.IH)
  with s1 show ?case by (simp add: both_steps_trans)
qed

lemma match_trade_both:
  assumes "keys_ok d"
  shows "both_steps oid d (match_trade_to_orders_v2 d trade)"
proof -
  have f: "both_steps oid d (foldl (match_one epo now) d ks)" for epo now ks
  proof (rule foldl_both)
    show "keys_ok d" by (rule assms)
  next
    fix d0 k
    assume "keys_ok d0"
    then show "both_steps oid d0 (match_one epo now d0 k)" by (rule match_one_both)
  qed
  show ?thesis
    using assms
    by (simp add: match_trade_to_orders_v2_def Let_def f both_steps_refl split: option.splits)
qed

lemma add_trade_both:
  assumes "keys_ok d"
  shows "both_steps oid d (add_trade d p sz bid now)"
proof -
  obtain d4 where eq: "add_trade d p sz bid now =
        match_trade_to_orders_v2 d4 \<lparr> tr_timestamp = now, tr_price = p, tr_size = sz, tr_is_bid = bid \<rparr>"
      and a: "active_orders d4 = active_orders d" and n: "notifications d4 = notifications d"
  proof (cases "now - last_volume_sample d \<ge> volume_sample_interval")
    case True
    show ?thesis
      by (rule that[of "d\<lparr> recent_trades := deque_append 200 (recent_trades d)
                \<lparr> tr_timestamp = now, tr_price = p, tr_size = sz, tr_is_bid = bid \<rparr>,
              market_metrics := mm_add_volume_sample (mm_add_trade (market_metrics d) sz now)
                                  (recent_volume d + sz),
              recent_volume := 0, last_volume_sample := now \<rparr>"])
         (use True in \<open>simp_all add: add_trade_def Let_def\<close>)
  next
    case False
    show ?thesis
      by (rule that[of "d\<lparr> recent_trades := deque_append 200 (recent_trades d)
                \<lparr> tr_timestamp = now, tr_price = p, tr_size = sz, tr_is_bid = bid \<rparr>,
              market_metrics := mm_add_trade (market_metrics d) sz now,
              recent_volume := recent_volume d + sz \<rparr>"])
         (use False in \<open>simp_all add: add_trade_def Let_def\<close>)
  qed
  have "local_effect d d4" using assms a n by (rule local_effect_silent)
  then have s1: "both_steps oid d d4" by (rule local_effect_both)
  then have "keys_ok d4" by (rule both_steps_keys)
  then have "both_steps oid d4 (add_trade d p sz bid now)" unfolding eq by (rule match_trade_both)
  with s1 show ?thesis by (rule both_steps_trans)
qed

lemma process_order_execution_both:
  "keys_ok d \<Longrightarrow> both_steps oid d (process_order_execution d k sz now)"
  by (simp add: process_order_execution_effect local_effect_both)

lemma handle_trades_both:
  assumes "keys_ok d"
  shows "both_steps oid d (handle_trades d p sz bid agg pas now)"
proof -
  define a where "a = normalize_size d sz"
  define d1 where "d1 = add_trade d p a bid now"
  define d2 where "d2 = (if truthy_id pas \<and> map_of (active_orders d1) (the pas) \<noteq> None
             then process_order_execution d1 (the pas) a now else d1)"
  define d3 where "d3 = (if truthy_id agg \<and> map_of (active_orders d2) (the agg) \<noteq> None
             then process_order_execution d2 (the agg) a now else d2)"
  have eq: "handle_trades d p sz bid agg pas now = d3"
    unfolding handle_trades_def Let_def d3_def d2_def d1_def a_def by (rule refl)
  have s1: "both_steps oid d d1" unfolding d1_def using assms by (rule add_trade_both)
  then have k1: "keys_ok d1" by (rule both_steps_keys)
  have s12: "both_steps oid d1 d2"
  proof (cases "truthy_id pas \<and> map_of (active_orders d1) (the pas) \<noteq> None")
    case True
    then have "d2 = process_order_execution d1 (the pas) a now" unfolding d2_def by (rule if_P)
    then show ?thesis using k1 by (simp only: process_order_execution_both)
  next
    case False
    then have "d2 = d1" unfolding d2_def by (rule if_not_P)
    then show ?thesis using k1 by (simp only: both_steps_refl)
  qed
  then have k2: "keys_ok d2" by (rule both_steps_keys)
  have s23: "both_steps oid d2 d3"
  proof (cases "truthy_id agg \<and> map_of (active_orders d2) (the agg) \<noteq> None")
    case True
    then have "d3 = process_order_execution d2 (the agg) a now" unfolding d3_def by (rule if_P)
    then show ?thesis using k2 by (simp only: process_order_execution_both)
  next
    case False
    then have "d3 = d2" unfolding d3_def by (rule if_not_P)
    then show ?thesis using k2 by (simp only: both_steps_refl)
  qed
  from s1 s12 have "both_steps oid d d2" by (rule both_steps_trans)
  from this s23 have "both_steps oid d d3" by (rule both_steps_trans)
  then show ?thesis by (simp only: eq)
qed

lemma cleanup_old_orders_both:
  assumes "keys_ok d"
  shows "both_steps oid d (cleanup_old_orders d now)"
proof -
  have "both_steps oid d (foldl cleanup_order d ks)" for ks
  proof (rule foldl_both)
    show "keys_ok d" by (rule assms)
  next
    fix d0 k
    assume "keys_ok d0"
    then have "local_effect d0 (cleanup_order d0 k)" by (rule cleanup_order_effect)
    then show "both_steps oid d0 (cleanup_order d0 k)" by (rule local_effect_both)
  qed
  then show ?thesis by (simp add: cleanup_old_orders_def Let_def)
qed

lemma if_cases:
  assumes "b \<Longrightarrow> Q u" and "\<not> b \<Longrightarrow> Q v"
  shows "Q (if b then u else v)"
  using assms by simp

lemma handle_mbo_event_dispatch:
  "handle_mbo_event d et k p sz tid now =
     (if et = ''ASK_NEW'' then process_new_order d k False p sz tid now
      else if et = ''BID_NEW'' then process_new_order d k True p sz tid now
      else if et = ''REPLACE'' then process_replace_order d k p sz now
      else if et = ''CANCEL'' then process_cancel_order d k now
      else d)"
proof -
  obtain ths where t: "get_dynamic_thresholds (market_metrics d) = Inr ths"
    using get_dynamic_thresholds_Inr by blast
  show ?thesis unfolding handle_mbo_event_def by (simp only: t sum.case)
qed

lemma handle_mbo_event_trace:
  assumes "keys_ok d"
  shows "trace_step oid d (handle_mbo_event d et k p sz tid now)"
proof -
  have new: "trace_step oid d (process_new_order d k bid p sz tid now)" for bid
    using process_new_order_effect[OF assms, of k bid p sz tid now]
    by (auto intro: local_effect_trace creation_trace)
  have rep: "trace_step oid d (process_replace_order d k p sz now)"
    by (rule local_effect_trace[OF process_replace_order_effect[OF assms]])
  have can: "trace_step oid d (process_cancel_order d k now)"
    by (rule local_effect_trace[OF process_cancel_order_effect[OF assms]])
  have same: "trace_step oid d d" using assms by (rule trace_step_refl)
  show ?thesis
    unfolding handle_mbo_event_dispatch
    by (intro if_cases[where Q = "trace_step oid d"] new rep can same)
qed

lemma handle_mbo_event_lifetime:
  assumes "keys_ok d" and "\<not> ((et = ''ASK_NEW'' \<or> et = ''BID_NEW'') \<and> k = oid)"
  shows "lifetime_step oid d (handle_mbo_event d et k p sz tid now)"
proof -
  have new: "k \<noteq> oid \<Longrightarrow> lifetime_step oid d (process_new_order d k bid p sz tid now)" for bid
    using process_new_order_effect[OF assms(1), of k bid p sz tid now]
    by (auto intro: local_effect_lifetime creation_lifetime)
  have rep: "lifetime_step oid d (process_replace_order d k p sz now)"
    by (rule local_effect_lifetime[OF process_replace_order_effect[OF assms(1)]])
  have can: "lifetime_step oid d (process_cancel_order d k now)"
    by (rule local_effect_lifetime[OF process_cancel_order_effect[OF assms(1)]])
  have same: "lifetime_step oid d d" by (rule lifetime_step_refl)
  show ?thesis
    unfolding handle_mbo_event_dispatch
  proof (rule if_cases[where Q = "lifetime_step oid d"])
    assume "et = ''ASK_NEW''"
    with assms(2) have "k \<noteq> oid" by blast
    then show "lifetime_step oid d (process_new_order d k False p sz tid now)" by (rule new)
  next
    assume "et \<noteq> ''ASK_NEW''"
    show "lifetime_step oid d
           (if et = ''BID_NEW'' then process_new_order d k True p sz tid now
            else if et = ''REPLACE'' then process_replace_order d k p sz now
            else if et = ''CANCEL'' then process_cancel_order d k now else d)"
    proof (rule if_cases[where Q = "lifetime_step oid d"])
      assume "et = ''BID_NEW''"
      with assms(2) have "k \<noteq> oid" by blast
      then show "lifetime_step oid d (process_new_order d k True p sz tid now)" by (rule new)
    next
      assume "et \<noteq> ''BID_NEW''"
      show "lifetime_step oid d
             (if et = ''REPLACE'' then process_replace_order d k p sz now
              else if et = ''CANCEL'' then process_cancel_order d k now else d)"
        by (intro if_cases[where Q = "lifetime_step oid d"] rep can same)
    qed
  qed
qed

lemma handle_event_trace: "keys_ok d \<Longrightarrow> trace_step oid d (handle_event d e)"
proof (cases e)
  case (MboEvent et k p sz tid now)
  assume "keys_ok d"
  then show ?thesis unfolding MboEvent handle_event.simps by (rule handle_mbo_event_trace)
next
  case (TradeEvent p sz bid agg pas now)
  assume "keys_ok d"
  then have "both_steps oid d (handle_trades d p sz bid agg pas now)" by (rule handle_trades_both)
  then show ?thesis by (simp add: TradeEvent both_steps_def)
next
  case (DepthEvent bid p sz)
  assume "keys_ok d"
  then show ?thesis
    by (simp add: DepthEvent handle_depth_info_def local_effect_trace update_depth_effect)
next
  case (IntervalEvent now)
  assume "keys_ok d"
  then have "both_steps oid d (cleanup_old_orders d now)" by (rule cleanup_old_orders_both)
  then show ?thesis by (simp add: IntervalEvent on_interval_def both_steps_def)
qed

lemma handle_event_lifetime:
  "keys_ok d \<Longrightarrow> \<not> creates oid e \<Longrightarrow> lifetime_step oid d (handle_event d e)"
proof (cases e)
  case (MboEvent et k p sz tid now)
  assume "keys_ok d" "\<not> creates oid e"
  then show ?thesis unfolding MboEvent handle_event.simps creates.simps
    by (rule handle_mbo_event_lifetime)
next
  case (TradeEvent p sz bid agg pas now)
  assume "keys_ok d"
  then have "both_steps oid d (handle_trades d p sz bid agg pas now)" by (rule handle_trades_both)
  then show ?thesis by (simp add: TradeEvent both_steps_def)
next
  case (DepthEvent bid p sz)
  assume "keys_ok d"
  then show ?thesis
    by (simp add: DepthEvent handle_depth_info_def local_effect_lifetime update_depth_effect)
next
  case (IntervalEvent now)
  assume "keys_ok d"
  then have "both_steps oid d (cleanup_old_orders d now)" by (rule cleanup_old_orders_both)
  then show ?thesis by (simp add: IntervalEvent on_interval_def both_steps_def)
qed

lemma handle_events_trace: "keys_ok d \<Longrightarrow> trace_step oid d (handle_events d es)"
  unfolding handle_events_def
proof (induction es arbitrary: d)
  case Nil
  then show ?case by (simp add: trace_step_refl)
next
  case (Cons e es)
  have s1: "trace_step oid d (handle_event d e)" using Cons.prems by (rule handle_event_trace)
  then have "keys_ok (handle_event d e)" by (simp add: trace_step_def)
  then have "trace_step oid (handle_event d e) (foldl handle_event (handle_event d e) es)"
    by (rule Cons.IH)
  with s1 show ?case by (simp add: trace_step_trans)
qed

lemma handle_events_lifetime:
  "keys_ok d \<Longrightarrow> list_all (\<lambda>e. \<not> creates oid e) es \<Longrightarrow> lifetime_step oid d (handle_events d es)"
  unfolding handle_events_def
proof (induction es arbitrary: d)
  case Nil
  then show ?case by (simp add: lifetime_step_refl)
next
  case (Cons e es)
  from Cons.prems have ne: "\<not> creates oid e" and rest: "list_all (\<lambda>e. \<not> creates oid e) es"
    by simp_all
  have s1: "lifetime_step oid d (handle_event d e)"
    using Cons.prems(1) ne by (rule handle_event_lifetime)
  have "trace_step oid d (handle_event d e)" using Cons.prems(1) by (rule handle_event_trace)
  then have "keys_ok (handle_event d e)" by (simp add: trace_step_def)
  then have "lifetime_step oid (handle_event d e) (foldl handle_event (handle_event d e) es)"
    using rest by (rule Cons.IH)
  with s1 show ?case by (simp add: lifetime_step_trans)
qed

text \<open>Every state that the handlers reach from a new detector stores its orders under their own identifiers.\<close>

lemma reachable_keys_ok:
  "keys_ok (handle_events (RealMBOIcebergDetector a multiplier pip t0) es)"
proof -
  have "keys_ok (RealMBOIcebergDetector a multiplier pip t0)"
    by (simp add: keys_ok_def RealMBOIcebergDetector_def)
  then have "trace_step [] (RealMBOIcebergDetector a multiplier pip t0)
               (handle_events (RealMBOIcebergDetector a multiplier pip t0) es)"
    by (rule handle_events_trace)
  then show ?thesis by (simp add: trace_step_def)
qed

subsection \<open>Confirmation\<close>

lemma budget_le_1: "budget d oid \<le> 1"
  by (simp add: budget_def)

lemma phase_confirmed: "conf d oid = Some True \<Longrightarrow> phase d oid = 1 \<and> budget d oid = 0"
  by (simp add: phase_def budget_def)

lemma phase_ge_1: "1 \<le> phase d oid \<Longrightarrow> conf d oid \<noteq> Some False"
  by (auto simp: phase_def)

text \<open>
  Claim C3. Take any state of the detector in which every order is stored under its
  own identifier (every reachable state is), and any sequence of events that does not
  create an order under the identifier again, so that the sequence lies within one
  lifetime of the order. Then at most one detection notification for the identifier
  is sent during the sequence; and if the order is confirmed at the start, it is
  never found unconfirmed afterwards and no detection notification for it is sent.
\<close>

theorem confirmation_permanent_and_at_most_once:
  assumes "keys_ok d" and "list_all (\<lambda>e. \<not> creates oid e) es"
  shows "detections oid (notifications (handle_events d es))
           \<le> detections oid (notifications d) + 1
         \<and> (conf d oid = Some True \<longrightarrow>
              conf (handle_events d es) oid \<noteq> Some False \<and>
              detections oid (notifications (handle_events d es))
                = detections oid (notifications d))"
proof -
  let ?d' = "handle_events d es"
  have "lifetime_step oid d ?d'" using assms by (rule handle_events_lifetime)
  then obtain new where n: "notifications ?d' = notifications d @ new"
      and p: "phase d oid \<le> phase ?d' oid"
      and b: "detections oid new + budget ?d' oid \<le> budget d oid"
    unfolding lifetime_step_def by blast
  have le: "detections oid new \<le> 1" using b budget_le_1[of d oid] by simp
  have once: "detections oid (notifications ?d') \<le> detections oid (notifications d) + 1"
    using le by (simp add: n)
  have perm: "conf ?d' oid \<noteq> Some False \<and>
              detections oid (notifications ?d') = detections oid (notifications d)"
    if c: "conf d oid = Some True"
  proof -
    from phase_confirmed[OF c] p b have "1 \<le> phase ?d' oid" and "detections oid new = 0"
      by simp_all
    then show ?thesis using phase_ge_1 by (simp add: n)
  qed
  from once perm show ?thesis by blast
qed

theorem confirmation_permanent_and_at_most_once_witness:
  "keys_ok demo_detector
   \<and> list_all (\<lambda>e. \<not> creates ''A'' e) demo_refills
   \<and> detections ''A'' (notifications (handle_events demo_detector demo_refills))
        \<le> detections ''A'' (notifications demo_detector) + 1
   \<and> notifications (handle_events demo_detector demo_refills)
        = [DetectionNotification ''A'' RefillPattern]
   \<and> keys_ok (handle_events demo_detector demo_refills)
   \<and> list_all (\<lambda>e. \<not> creates ''A'' e) demo_fills
   \<and> conf (handle_events demo_detector demo_refills) ''A'' = Some True
   \<and> conf (handle_events (handle_events demo_detector demo_refills) demo_fills) ''A''
        \<noteq> Some False
   \<and> detections ''A'' (notifications
         (handle_events (handle_events demo_detector demo_refills) demo_fills))
        = detections ''A'' (notifications (handle_events demo_detector demo_refills))"
proof -
  have k1: "keys_ok demo_detector" by code_simp
  have n1: "list_all (\<lambda>e. \<not> creates ''A'' e) demo_refills" by code_simp
  have v1: "notifications (handle_events demo_detector demo_refills)
              = [DetectionNotification ''A'' RefillPattern]" by code_simp
  have k2: "keys_ok (handle_events demo_detector demo_refills)" by code_simp
  have n2: "list_all (\<lambda>e. \<not> creates ''A'' e) demo_fills" by code_simp
  have c2: "conf (handle_events demo_detector demo_refills) ''A'' = Some True" by code_simp
  from confirmation_permanent_and_at_most_once[OF k1 n1]
  have a: "detections ''A'' (notifications (handle_events demo_detector demo_refills))
        \<le> detections ''A'' (notifications demo_detector) + 1" by (rule conjunct1)
  from confirmation_permanent_and_at_most_once[OF k2 n2] c2
  have b: "conf (handle_events (handle_events demo_detector demo_refills) demo_fills) ''A''
        \<noteq> Some False \<and>
      detections ''A'' (notifications
         (handle_events (handle_events demo_detector demo_refills) demo_fills))
        = detections ''A'' (notifications (handle_events demo_detector demo_refills))"
    by blast
  from k1 n1 a v1 k2 n2 c2 b show ?thesis by blast
qed

subsection \<open>Progress notifications\<close>

text \<open>
  Claim C4. \<^verbatim>\<open>process_order_execution\<close>, the one place that sends execution updates,
  either sends nothing or sends one update for the order, and then the order was
  confirmed before the fill, its \<^verbatim>\<open>execution_percentage\<close> after the fill is at least 0.7,
  \<^verbatim>\<open>total_filled\<close> after the fill exceeds the old \<^verbatim>\<open>last_reported_filled\<close> by at least 20,
  and \<^verbatim>\<open>last_reported_filled\<close> is set to \<^verbatim>\<open>total_filled\<close>. Over every sequence of events,
  each execution update of an order in the log comes after a detection notification
  of the order, unless the order was confirmed before the sequence began.
\<close>

theorem progress_only_when_confirmed_and_throttled:
  assumes "keys_ok d"
  shows "(notifications (process_order_execution d oid sz now) = notifications d
          \<or> (\<exists>ord ord1.
                map_of (active_orders d) oid = Some ord \<and>
                map_of (active_orders (process_order_execution d oid sz now)) oid = Some ord1 \<and>
                is_confirmed_iceberg ord \<and>
                execution_percentage ord1 \<ge> 7/10 \<and>
                total_filled ord1 - last_reported_filled ord \<ge> 20 \<and>
                notifications (process_order_execution d oid sz now)
                  = notifications d @ [ExecutionUpdate oid] \<and>
                last_reported_filled ord1 = total_filled ord1))
         \<and> progress_after_detection oid (conf d oid = Some True)
              (emitted d (handle_events d es))"
proof -
  let ?d' = "process_order_execution d oid sz now"
  have local: "notifications ?d' = notifications d
          \<or> (\<exists>ord ord1.
                map_of (active_orders d) oid = Some ord \<and>
                map_of (active_orders ?d') oid = Some ord1 \<and>
                is_confirmed_iceberg ord \<and>
                execution_percentage ord1 \<ge> 7/10 \<and>
                total_filled ord1 - last_reported_filled ord \<ge> 20 \<and>
                notifications ?d' = notifications d @ [ExecutionUpdate oid] \<and>
                last_reported_filled ord1 = total_filled ord1)"
  proof (cases "map_of (active_orders d) oid")
    case None
    then show ?thesis by (simp add: process_order_execution_None)
  next
    case (Some ord)
    have oid: "order_id ord = oid" using assms Some by (rule keys_ok_lookup)
    let ?ord1 = "add_execution ord sz now"
    show ?thesis
    proof (cases "is_confirmed_iceberg ord \<and>
           (get_execution_ratio ?ord1 \<ge> alert_execution_ratio_threshold \<or>
            total_filled ?ord1 \<ge> alert_total_filled_threshold) \<and>
           execution_percentage ?ord1 \<ge> execution_threshold \<and>
           total_filled ?ord1 - last_reported_filled ord \<ge> 20")
      case True
      then have eq: "?d' = d\<lparr> active_orders := AList.update oid
                  (?ord1\<lparr> last_reported_filled := total_filled ?ord1 \<rparr>) (active_orders d),
                notifications := notifications d @ [ExecutionUpdate (order_id ord)] \<rparr>"
        unfolding process_order_execution_Some[OF Some] by (rule if_P)
      let ?ord2 = "?ord1\<lparr> last_reported_filled := total_filled ?ord1 \<rparr>"
      have m: "map_of (active_orders ?d') oid = Some ?ord2" by (simp add: eq update_conv')
      have n: "notifications ?d' = notifications d @ [ExecutionUpdate oid]" by (simp add: eq oid)
      have p: "execution_percentage ?ord2 \<ge> 7/10"
        using True by (simp add: execution_threshold_def)
      have t: "total_filled ?ord2 - last_reported_filled ord \<ge> 20" using True by simp
      have l: "last_reported_filled ?ord2 = total_filled ?ord2" by simp
      from True have c: "is_confirmed_iceberg ord" by blast
      from Some m c p t n l show ?thesis by blast
    next
      case False
      then have eq: "?d' = d\<lparr> active_orders := AList.update oid ?ord1 (active_orders d) \<rparr>"
        unfolding process_order_execution_Some[OF Some] by (rule if_not_P)
      then show ?thesis by simp
    qed
  qed
  let ?e = "handle_events d es"
  have "trace_step oid d ?e" using assms by (rule handle_events_trace)
  then obtain new where n: "notifications ?e = notifications d @ new"
      and p: "progress_after_detection oid (conf d oid = Some True) new"
    unfolding trace_step_def by blast
  have "emitted d ?e = new" by (simp add: emitted_def n)
  with p have global: "progress_after_detection oid (conf d oid = Some True) (emitted d ?e)"
    by simp
  from local global show ?thesis by (rule conjI)
qed

theorem progress_only_when_confirmed_and_throttled_witness:
  "keys_ok demo_detector
   \<and> emitted demo_detector (handle_events demo_detector (demo_refills @ demo_fills))
       = [DetectionNotification ''A'' RefillPattern, ExecutionUpdate ''A'']
   \<and> progress_after_detection ''A'' (conf demo_detector ''A'' = Some True)
        (emitted demo_detector (handle_events demo_detector (demo_refills @ demo_fills)))
   \<and> notifications (process_order_execution (handle_events demo_detector demo_refills) ''A'' 20 16)
       = notifications (handle_events demo_detector demo_refills) @ [ExecutionUpdate ''A'']"
proof -
  have k1: "keys_ok demo_detector" by code_simp
  have v: "emitted demo_detector (handle_events demo_detector (demo_refills @ demo_fills))
       = [DetectionNotification ''A'' RefillPattern, ExecutionUpdate ''A'']" by code_simp
  have u: "notifications (process_order_execution (handle_events demo_detector demo_refills) ''A'' 20 16)
       = notifications (handle_events demo_detector demo_refills) @ [ExecutionUpdate ''A'']"
    by code_simp
  from progress_only_when_confirmed_and_throttled[OF k1, of "''A''" _ _ "demo_refills @ demo_fills"]
  have g: "progress_after_detection ''A'' (conf demo_detector ''A'' = Some True)
        (emitted demo_detector (handle_events demo_detector (demo_refills @ demo_fills)))"
    by (rule conjunct2)
  from k1 v g u show ?thesis by blast
qed

end
